theory Spec2Isabelle
  imports Complex_Main
begin

section \<open>Numbers and exceptions\<close>

text \<open>
  The exceptions the modelled code can raise.  A function that can raise returns
  \<open>error + 'a\<close>, with \<open>Inl\<close> for the exception.
\<close>

datatype error = ZeroDivisionError | ValueError | IndexError | UnboundLocalError

text \<open>
  The entries of tensors and the scalars that flow through the losses are floating
  point numbers.  They are modelled as a real number or \<open>NaN\<close>: arithmetic on
  numbers is exact (no rounding, no overflow, no infinities), and \<open>NaN\<close> is
  absorbing, as in IEEE arithmetic.  A quotient by zero and the root of a negative
  number are not numbers of the model either and are \<open>NaN\<close>.
\<close>

datatype fnum = Fin real | NaN

instantiation fnum :: "{zero,plus,minus,times,inverse}"
begin

definition zero_fnum :: fnum where
  "zero_fnum = Fin 0"

fun plus_fnum :: "fnum \<Rightarrow> fnum \<Rightarrow> fnum" where
  "plus_fnum (Fin a) (Fin b) = Fin (a + b)"
| "plus_fnum _ _ = NaN"

fun minus_fnum :: "fnum \<Rightarrow> fnum \<Rightarrow> fnum" where
  "minus_fnum (Fin a) (Fin b) = Fin (a - b)"
| "minus_fnum _ _ = NaN"

fun times_fnum :: "fnum \<Rightarrow> fnum \<Rightarrow> fnum" where
  "times_fnum (Fin a) (Fin b) = Fin (a * b)"
| "times_fnum _ _ = NaN"

fun divide_fnum :: "fnum \<Rightarrow> fnum \<Rightarrow> fnum" where
  "divide_fnum (Fin a) (Fin b) = (if b = 0 then NaN else Fin (a / b))"
| "divide_fnum _ _ = NaN"

fun inverse_fnum :: "fnum \<Rightarrow> fnum" where
  "inverse_fnum (Fin a) = (if a = 0 then NaN else Fin (1 / a))"
| "inverse_fnum NaN = NaN"

instance ..

end

fun fsqrt :: "fnum \<Rightarrow> fnum" where
  "fsqrt (Fin a) = (if a < 0 then NaN else Fin (sqrt a))"
| "fsqrt NaN = NaN"

text \<open>\<open>isfinite\<close>: the number is not \<open>NaN\<close>.\<close>

fun isfinite :: "fnum \<Rightarrow> bool" where
  "isfinite (Fin a) = True"
| "isfinite NaN = False"

text \<open>
  A tensor is the list of its entries; the operations on tensors are elementwise.  A
  gradient and the moment estimates of a parameter have the shape of the parameter, so
  the lists an operation combines have one length.
\<close>

type_synonym tensor = "fnum list"

section \<open>SharedAdam\<close>

text \<open>
  A parameter \<open>p\<close> of the optimizer together with its entry \<open>self.state[p]\<close>:
  the tensor \<open>p.data\<close>, the gradient \<open>p.grad\<close> (\<open>None\<close> when there is
  none) and the three entries \<open>step\<close>, \<open>exp_avg\<close> and \<open>exp_avg_sq\<close>
  of the state dictionary.  \<open>state['step']\<close> is a one-element \<open>float32\<close>
  tensor, \<open>torch.zeros(1)\<close>, to which the code only ever adds 1: it holds a whole
  number, the \<open>nat\<close> here.
\<close>

record param =
  data :: tensor
  grad :: "tensor option"
  state_step :: nat
  exp_avg :: tensor
  exp_avg_sq :: tensor

text \<open>An entry of \<open>self.param_groups\<close>: the parameters and the hyperparameters.\<close>

record group =
  params :: "param list"
  lr :: real
  betas :: "real \<times> real"
  eps :: real
  weight_decay :: real

text \<open>
  \<open>SharedAdam.__init__\<close>: \<open>torch.optim.Adam\<close> puts the parameters into one
  group with its default hyperparameters; every parameter then gets a zero step count
  and zero moment estimates of its own shape.
\<close>

definition init_state :: "param \<Rightarrow> param" where
  "init_state p =
     p\<lparr>state_step := 0,
       exp_avg := map (\<lambda>_. 0) (data p),
       exp_avg_sq := map (\<lambda>_. 0) (data p)\<rparr>"

definition SharedAdam_init :: "param list \<Rightarrow> real \<Rightarrow> group list" where
  "SharedAdam_init ps learning_rate =
     [\<lparr>params = map init_state ps, lr = learning_rate, betas = (9 / 10, 999 / 1000),
       eps = 1 / 100000000, weight_decay = 0\<rparr>]"

text \<open>
  The step size of one parameter, from its step count \<open>t\<close>.  The three quantities are
  Python floats: \<open>math.sqrt\<close> raises \<open>ValueError\<close> on a negative argument and
  the division raises \<open>ZeroDivisionError\<close>.
\<close>

definition step_size :: "group \<Rightarrow> nat \<Rightarrow> error + real" where
  "step_size g t =
     (let (beta1, beta2) = betas g;
          bias_correction1 = 1 - beta1 ^ t;
          bias_correction2 = 1 - beta2 ^ t
      in if bias_correction2 < 0 then Inl ValueError
         else if bias_correction1 = 0 then Inl ZeroDivisionError
         else Inr (lr g * sqrt bias_correction2 / bias_correction1))"

text \<open>
  \<open>state['step'] += 1\<close>, an addition of \<open>float32\<close> numbers with rounding to the
  nearest number, ties to the even significand.  Below \<open>2 ^ 24 = 16777216\<close> every whole
  number is a \<open>float32\<close> and the sum is exact.  From \<open>2 ^ 24\<close> to \<open>2 ^ 25\<close> the
  \<open>float32\<close> numbers are the even numbers, so the sum lies half way between \<open>t\<close> and
  \<open>t + 2\<close> and is rounded to the one whose half is even; at \<open>2 ^ 24\<close> itself that is
  \<open>2 ^ 24\<close>.  From \<open>2 ^ 25\<close> on the neighbours of \<open>t\<close> are more than 2 away and the
  sum is rounded back to \<open>t\<close>.  A counter that starts at zero therefore stops at
  \<open>16777216\<close>.
\<close>

definition float32_succ :: "nat \<Rightarrow> nat" where
  "float32_succ t =
     (if t < 16777216 then t + 1
      else if t < 33554432 \<and> odd (t div 2) then t + 2
      else t)"

text \<open>
  The body of the loop of \<open>SharedAdam.step\<close> for a parameter \<open>p\<close> whose
  gradient is \<open>g0\<close>.
\<close>

definition adam_update :: "group \<Rightarrow> param \<Rightarrow> tensor \<Rightarrow> error + param" where
  "adam_update g p g0 =
     (let (beta1, beta2) = betas g;
          t = float32_succ (state_step p);
          gr = (if weight_decay g \<noteq> 0
                then map2 (\<lambda>(x::fnum) d. x + Fin (weight_decay g) * d) g0 (data p) else g0);
          avg = map2 (\<lambda>(m::fnum) x. m * Fin beta1 + Fin (1 - beta1) * x) (exp_avg p) gr;
          avg_sq = map2 (\<lambda>(v::fnum) x. v * Fin beta2 + Fin (1 - beta2) * (x * x)) (exp_avg_sq p) gr;
          denom = map (\<lambda>(v::fnum). fsqrt v + Fin (eps g)) avg_sq
      in case step_size g t of
           Inl e \<Rightarrow> Inl e
         | Inr s \<Rightarrow>
             Inr (p\<lparr>data := map2 (\<lambda>(d::fnum) q. d + Fin (- s) * q) (data p)
                            (map2 (\<lambda>(m::fnum) v. m / v) avg denom),
                    state_step := t, exp_avg := avg, exp_avg_sq := avg_sq\<rparr>))"

text \<open>The inner loop \<open>for p in group['params']\<close>.\<close>

fun step_params :: "group \<Rightarrow> param list \<Rightarrow> error + param list" where
  "step_params g [] = Inr []"
| "step_params g (p # ps) =
     (case grad p of
        None \<Rightarrow>
          (case step_params g ps of Inl e \<Rightarrow> Inl e | Inr ps' \<Rightarrow> Inr (p # ps'))
      | Some g0 \<Rightarrow>
          (case adam_update g p g0 of
             Inl e \<Rightarrow> Inl e
           | Inr p' \<Rightarrow>
               (case step_params g ps of Inl e \<Rightarrow> Inl e | Inr ps' \<Rightarrow> Inr (p' # ps'))))"

text \<open>
  \<open>SharedAdam.step\<close>, called without a closure: the outer loop
  \<open>for group in self.param_groups\<close>.
\<close>

fun SharedAdam_step :: "group list \<Rightarrow> error + group list" where
  "SharedAdam_step [] = Inr []"
| "SharedAdam_step (g # gs) =
     (case step_params g (params g) of
        Inl e \<Rightarrow> Inl e
      | Inr ps' \<Rightarrow>
          (case SharedAdam_step gs of
             Inl e \<Rightarrow> Inl e
           | Inr gs' \<Rightarrow> Inr (g\<lparr>params := ps'\<rparr> # gs')))"

text \<open>
  \<open>zero_grad\<close> of the optimizer: a gradient that is there is zeroed in place, a
  missing one stays missing.
\<close>

definition zero_grad :: "group list \<Rightarrow> group list" where
  "zero_grad gs =
     map (\<lambda>g. g\<lparr>params := map (\<lambda>p. p\<lparr>grad := map_option (map (\<lambda>_. 0)) (grad p)\<rparr>)
                                (params g)\<rparr>) gs"

text \<open>
  \<open>for lp, gp in zip(self.net.parameters(), self.global_net.parameters()):
  gp._grad = lp.grad\<close>.  The local gradients \<open>ls\<close> are in the order of the
  parameters; \<open>zip\<close> stops at the shorter sequence.
\<close>

fun assign_grads :: "tensor option list \<Rightarrow> param list \<Rightarrow> param list" where
  "assign_grads (l # ls) (p # ps) = p\<lparr>grad := l\<rparr> # assign_grads ls ps"
| "assign_grads ls ps = ps"

fun push_grads :: "tensor option list \<Rightarrow> group list \<Rightarrow> group list" where
  "push_grads ls [] = []"
| "push_grads ls (g # gs) =
     g\<lparr>params := assign_grads ls (params g)\<rparr> # push_grads (drop (length (params g)) ls) gs"

text \<open>The step counts of all parameters, group by group.\<close>

definition step_counts :: "group list \<Rightarrow> nat list list" where
  "step_counts gs = map (\<lambda>g. map state_step (params g)) gs"

text \<open>\<open>state_dict()\<close> of the global network: the tensors of its parameters, in order.\<close>

definition state_dict :: "group list \<Rightarrow> tensor list" where
  "state_dict gs = concat (map (\<lambda>g. map data (params g)) gs)"

section \<open>Configuration and library functions\<close>

text \<open>
  The module \<open>config_a3c\<close> is not part of the sources: its constants are the fields
  of a record that every function of the worker takes as a parameter.
\<close>

record config =
  DISCOUNT :: real
  ENTROPY_COEFF :: real
  VALUE_LOSS_COEFF :: real
  BUFFER_UPDATE_FREQ :: int
  SAVE_NETWORK_FREQ :: int
  EXPERIMENT_NAME :: string
  INITIAL_EXPLORATION :: real
  FINAL_EXPLORATION :: real
  FINAL_EXPLORATION_FRAME :: int
  TRAIN_ITERATIONS :: int

text \<open>
  \<open>np.linspace(start, stop, num)\<close>: \<open>num\<close> evenly spaced samples over the closed
  interval, the last one set to \<open>stop\<close>; a negative \<open>num\<close> raises
  \<open>ValueError\<close>.
\<close>

definition linspace :: "real \<Rightarrow> real \<Rightarrow> int \<Rightarrow> error + real list" where
  "linspace start stop num =
     (if num < 0 then Inl ValueError
      else if num = 0 then Inr []
      else if num = 1 then Inr [start]
      else Inr (map (\<lambda>k. start + real k * ((stop - start) / real_of_int (num - 1)))
                  [0..<nat num - 1] @ [stop]))"

text \<open>
  Indexing a sequence with an integer: an index below zero counts from the end, an
  index outside the sequence raises \<open>IndexError\<close>.
\<close>

definition getitem :: "'a list \<Rightarrow> int \<Rightarrow> error + 'a" where
  "getitem xs i =
     (if 0 \<le> i \<and> i < int (length xs) then Inr (xs ! nat i)
      else if i < 0 \<and> - int (length xs) \<le> i then Inr (xs ! nat (int (length xs) + i))
      else Inl IndexError)"

text \<open>\<open>str(i)\<close> for an integer and \<open>s.zfill(width)\<close> for a string without a sign.\<close>

definition digit_char :: "nat \<Rightarrow> char" where
  "digit_char d = ''0123456789'' ! d"

fun str_nat :: "nat \<Rightarrow> string" where
  "str_nat n = (if n < 10 then [digit_char n] else str_nat (n div 10) @ [digit_char (n mod 10)])"

declare str_nat.simps [simp del]

definition str_int :: "int \<Rightarrow> string" where
  "str_int i = (if i < 0 then CHR ''-'' # str_nat (nat (- i)) else str_nat (nat i))"

definition zfill :: "nat \<Rightarrow> string \<Rightarrow> string" where
  "zfill width s = replicate (width - length s) CHR ''0'' @ s"

text \<open>The number a string of decimal digits denotes.\<close>

definition digit_val :: "char \<Rightarrow> nat" where
  "digit_val c = of_char c - 48"

definition decimal :: "string \<Rightarrow> nat" where
  "decimal s = foldl (\<lambda>a c. 10 * a + digit_val c) 0 s"

section \<open>ActorCriticWorker\<close>

text \<open>
  The four keys of \<open>self.buffer\<close>.  The dictionary binds each key to a list object:
  \<open>buffer\<close> maps a key to the reference of its list and \<open>heap\<close> maps a reference
  to the list it holds, so that two keys that are bound to one object share its
  appends.  \<open>next_ref\<close> is the reference of the next list that is created.
\<close>

datatype key = K_value | K_action_prob | K_reward | K_entropy

text \<open>
  The state a worker works on: its own fields, the locals \<open>eplen\<close> and \<open>loss\<close>
  of \<open>train\<close> (\<open>loss\<close> is unbound until the first optimization), and the shared
  objects it reaches, which are the optimizer over the parameters of the global
  network, the checkpoint files and the scalars given to the summary writer.  The
  local network, the frames and the game are opaque: what they return in an iteration
  is an input of that iteration.
\<close>

record worker =
  wid :: int
  shared_opt :: "group list"
  buffer :: "key \<Rightarrow> nat"
  heap :: "nat \<Rightarrow> fnum list"
  next_ref :: nat
  buffer_length :: int
  epsilon :: "real list"
  eplen :: int
  loss :: "fnum option"
  dirs :: "string set"
  files :: "string \<rightharpoonup> tensor list"
  scalars :: "(string \<times> fnum \<times> nat) list"

text \<open>
  What the network and the game return in one iteration of \<open>train\<close>: the value, the
  log probability and the entropy of the forward pass, the reward and the termination
  flag of \<open>game.step\<close>, the value of the forward pass on the next state (used by
  \<open>optimize_model\<close> when the episode goes on), and the gradients that the backward
  pass and the clipping leave on the local parameters.
\<close>

record observation =
  o_value :: fnum
  o_log_prob :: fnum
  o_entropy :: fnum
  o_reward :: fnum
  o_done :: bool
  o_next_value :: fnum
  o_grads :: "tensor option list"

text \<open>
  \<open>ActorCriticWorker.__init__\<close>: four separate empty lists, one per key, and the
  exploration schedule.
\<close>

definition ActorCriticWorker_init :: "config \<Rightarrow> int \<Rightarrow> group list \<Rightarrow> error + worker" where
  "ActorCriticWorker_init cfg i opt =
     (case linspace (INITIAL_EXPLORATION cfg) (FINAL_EXPLORATION cfg)
             (FINAL_EXPLORATION_FRAME cfg) of
        Inl e \<Rightarrow> Inl e
      | Inr eps_list \<Rightarrow>
          Inr \<lparr>wid = i, shared_opt = opt,
               buffer = (\<lambda>k. case k of K_value \<Rightarrow> 0 | K_action_prob \<Rightarrow> 1
                                     | K_reward \<Rightarrow> 2 | K_entropy \<Rightarrow> 3),
               heap = (\<lambda>_. []), next_ref = 4, buffer_length = 0, epsilon = eps_list,
               eplen = 0, loss = None, dirs = {}, files = Map.empty, scalars = []\<rparr>)"

text \<open>\<open>self.buffer[k]\<close> and \<open>self.buffer[k].append(x)\<close>.\<close>

definition contents :: "worker \<Rightarrow> key \<Rightarrow> fnum list" where
  "contents w k = heap w (buffer w k)"

definition buffer_append :: "key \<Rightarrow> fnum \<Rightarrow> worker \<Rightarrow> worker" where
  "buffer_append k x w = w\<lparr>heap := (heap w)(buffer w k := heap w (buffer w k) @ [x])\<rparr>"

text \<open>
  \<open>detach()\<close> returns the same number, cut off from the graph of the backward pass;
  the graph is not part of this model.
\<close>

definition detach :: "fnum \<Rightarrow> fnum" where
  "detach x = x"

text \<open>
  The body of the loop \<open>for i in reversed(range(self.buffer_length))\<close> of
  \<open>optimize_model\<close>, on the lists \<open>buf\<close> the keys are bound to and the
  accumulators \<open>(loss_value, loss_policy, gae)\<close>.  Every index is read from its list;
  an index outside a list raises \<open>IndexError\<close>.
\<close>

definition loss_body ::
  "config \<Rightarrow> fnum \<Rightarrow> (key \<Rightarrow> fnum list) \<Rightarrow> nat \<Rightarrow> fnum \<times> fnum \<times> fnum \<Rightarrow> error + fnum \<times> fnum \<times> fnum"
where
  "loss_body cfg value_1 buf i acc =
     (case acc of (loss_value, loss_policy, gae) \<Rightarrow>
        if i < length (buf K_reward) \<and> i + 1 < length (buf K_value) \<and>
           i < length (buf K_action_prob) \<and> i < length (buf K_entropy)
        then
          (let value_target = Fin (DISCOUNT cfg) * value_1 + buf K_reward ! i;
               advantage = value_1 - buf K_value ! i;
               loss_value' = loss_value + advantage * advantage;
               delta_t = buf K_reward ! i + Fin (DISCOUNT cfg) * buf K_value ! (i + 1)
                           - buf K_value ! i;
               gae' = gae * Fin (DISCOUNT cfg) + delta_t;
               loss_policy' = loss_policy - (buf K_action_prob ! i * detach gae'
                                - Fin (ENTROPY_COEFF cfg) * buf K_entropy ! i)
           in Inr (loss_value', loss_policy', gae'))
        else Inl IndexError)"

fun loss_loop ::
  "config \<Rightarrow> fnum \<Rightarrow> (key \<Rightarrow> fnum list) \<Rightarrow> nat list \<Rightarrow> fnum \<times> fnum \<times> fnum \<Rightarrow> error + fnum \<times> fnum \<times> fnum"
where
  "loss_loop cfg value_1 buf [] acc = Inr acc"
| "loss_loop cfg value_1 buf (i # is) acc =
     (case loss_body cfg value_1 buf i acc of
        Inl e \<Rightarrow> Inl e
      | Inr acc' \<Rightarrow> loss_loop cfg value_1 buf is acc')"

text \<open>
  The first half of \<open>optimize_model\<close>: the value of the next state, its append to
  the list of the key \<open>value\<close>, and the loop.  The result is the worker after the
  append and the accumulators after the loop.
\<close>

definition bootstrap_value :: "observation \<Rightarrow> fnum" where
  "bootstrap_value ob = (if o_done ob then 0 else o_next_value ob)"

definition compute_losses ::
  "config \<Rightarrow> observation \<Rightarrow> worker \<Rightarrow> error + worker \<times> fnum \<times> fnum \<times> fnum" where
  "compute_losses cfg ob w =
     (let value_1 = bootstrap_value ob;
          w' = buffer_append K_value value_1 w
      in case loss_loop cfg value_1 (contents w') (rev [0..<nat (buffer_length w')]) (0, 0, 0) of
           Inl e \<Rightarrow> Inl e
         | Inr acc \<Rightarrow> Inr (w', acc))"

text \<open>
  \<open>optimize_model\<close>: the losses, the total loss, the push of the local gradients to
  the parameters of the global network and the step of the shared optimizer.  No
  branch looks at the loss.
\<close>

definition optimize_model :: "config \<Rightarrow> observation \<Rightarrow> worker \<Rightarrow> error + fnum \<times> worker" where
  "optimize_model cfg ob w =
     (case compute_losses cfg ob w of
        Inl e \<Rightarrow> Inl e
      | Inr (w', loss_value, loss_policy, gae) \<Rightarrow>
          (case SharedAdam_step (push_grads (o_grads ob) (zero_grad (shared_opt w'))) of
             Inl e \<Rightarrow> Inl e
           | Inr opt \<Rightarrow>
               Inr (loss_policy + Fin (VALUE_LOSS_COEFF cfg) * loss_value,
                    w'\<lparr>shared_opt := opt\<rparr>)))"

text \<open>\<open>self.writer.add_scalar(tag, x, i)\<close>.\<close>

definition add_scalar :: "string \<Rightarrow> fnum \<Rightarrow> nat \<Rightarrow> worker \<Rightarrow> worker" where
  "add_scalar tag x i w = w\<lparr>scalars := scalars w @ [(tag, x, i)]\<rparr>"

text \<open>The block \<open># Save experience to buffer\<close> of \<open>train\<close>, with the two counters.\<close>

definition collect :: "observation \<Rightarrow> worker \<Rightarrow> worker" where
  "collect ob w =
     (let w1 = buffer_append K_value (o_value ob) w;
          w2 = buffer_append K_action_prob (o_log_prob ob) w1;
          w3 = buffer_append K_reward (o_reward ob) w2;
          w4 = buffer_append K_entropy (o_entropy ob) w3
      in w4\<lparr>buffer_length := buffer_length w4 + 1, eplen := eplen w4 + 1\<rparr>)"

text \<open>
  \<open>dict.fromkeys(self.buffer, [])\<close>: one new empty list, and a new dictionary that
  binds every key of the old one to it.
\<close>

definition clear_buffers :: "worker \<Rightarrow> worker" where
  "clear_buffers w =
     w\<lparr>buffer := (\<lambda>k. next_ref w), heap := (heap w)(next_ref w := []),
       next_ref := next_ref w + 1, buffer_length := 0\<rparr>"

text \<open>The block \<open>if done:\<close> at the end of an optimization.\<close>

definition end_episode :: "nat \<Rightarrow> worker \<Rightarrow> worker" where
  "end_episode i w =
     (if wid w = 2
      then add_scalar (''episode_length/'' @ str_int (wid w)) (Fin (real_of_int (eplen w))) i w
      else w)\<lparr>eplen := 0\<rparr>"

text \<open>The body of \<open>if self.buffer_length % cfg.BUFFER_UPDATE_FREQ == 0 or done\<close>.\<close>

definition flush :: "config \<Rightarrow> nat \<Rightarrow> observation \<Rightarrow> worker \<Rightarrow> error + worker" where
  "flush cfg i ob w =
     (case optimize_model cfg ob w of
        Inl e \<Rightarrow> Inl e
      | Inr (l, w1) \<Rightarrow>
          (let w2 = clear_buffers (w1\<lparr>loss := Some l\<rparr>)
           in Inr (if o_done ob then end_episode i w2 else w2)))"

definition flush_due :: "config \<Rightarrow> observation \<Rightarrow> worker \<Rightarrow> bool" where
  "flush_due cfg ob w = (buffer_length w mod BUFFER_UPDATE_FREQ cfg = 0 \<or> o_done ob)"

text \<open>The block \<open># Save network\<close>.\<close>

definition checkpoint_path :: "config \<Rightarrow> nat \<Rightarrow> string" where
  "checkpoint_path cfg i = EXPERIMENT_NAME cfg @ ''/'' @ zfill 7 (str_nat i) @ ''.pt''"

definition save_network :: "config \<Rightarrow> nat \<Rightarrow> worker \<Rightarrow> error + worker" where
  "save_network cfg i w =
     (if SAVE_NETWORK_FREQ cfg = 0 then Inl ZeroDivisionError
      else if int i mod SAVE_NETWORK_FREQ cfg = 0
      then Inr (w\<lparr>dirs := insert (EXPERIMENT_NAME cfg) (dirs w),
                  files := (files w)(checkpoint_path cfg i \<mapsto> state_dict (shared_opt w))\<rparr>)
      else Inr w)"

text \<open>The block \<open># Write results to log\<close>; \<open>loss\<close> may still be unbound.\<close>

definition write_log :: "nat \<Rightarrow> worker \<Rightarrow> error + worker" where
  "write_log i w =
     (if i mod 100 = 0 \<and> wid w = 2
      then (case loss w of
              None \<Rightarrow> Inl UnboundLocalError
            | Some l \<Rightarrow> Inr (add_scalar (''loss/'' @ str_int (wid w)) l i w))
      else Inr w)"

text \<open>
  One iteration \<open>i\<close> of the loop of \<open>train\<close>.  The exploration rate is looked up
  first; the remainder of \<open>self.buffer_length\<close> is computed before \<open>done\<close> is looked
  at, so a zero \<open>BUFFER_UPDATE_FREQ\<close> raises in every iteration.
\<close>

definition train_iter :: "config \<Rightarrow> nat \<Rightarrow> observation \<Rightarrow> worker \<Rightarrow> error + worker" where
  "train_iter cfg i ob w =
     (case getitem (epsilon w) (min (int i) (FINAL_EXPLORATION_FRAME cfg - 1)) of
        Inl e \<Rightarrow> Inl e
      | Inr eps_i \<Rightarrow>
          (let w1 = collect ob w
           in if BUFFER_UPDATE_FREQ cfg = 0 then Inl ZeroDivisionError
              else
                (case (if flush_due cfg ob w1 then flush cfg i ob w1 else Inr w1) of
                   Inl e \<Rightarrow> Inl e
                 | Inr w2 \<Rightarrow>
                     (case save_network cfg i w2 of
                        Inl e \<Rightarrow> Inl e
                      | Inr w3 \<Rightarrow> write_log i w3))))"

text \<open>
  The loop of \<open>train\<close> over the iterations \<open>is\<close>; \<open>env i\<close> is what the network and
  the game return in iteration \<open>i\<close>.  \<open>train\<close> runs it over \<open>range(1,
  cfg.TRAIN_ITERATIONS)\<close>.
\<close>

fun train_loop :: "config \<Rightarrow> (nat \<Rightarrow> observation) \<Rightarrow> nat list \<Rightarrow> worker \<Rightarrow> error + worker" where
  "train_loop cfg env [] w = Inr w"
| "train_loop cfg env (i # is) w =
     (case train_iter cfg i (env i) w of
        Inl e \<Rightarrow> Inl e
      | Inr w' \<Rightarrow> train_loop cfg env is w')"

definition train :: "config \<Rightarrow> (nat \<Rightarrow> observation) \<Rightarrow> worker \<Rightarrow> error + worker" where
  "train cfg env w =
     train_loop cfg env [1..<nat (TRAIN_ITERATIONS cfg)] (w\<lparr>eplen := 0, loss := None\<rparr>)"

text \<open>
  The exploration rate of iteration \<open>i\<close>: the schedule built by the constructor, read
  as \<open>train\<close> reads it.
\<close>

definition epsilon_at :: "config \<Rightarrow> int \<Rightarrow> error + real" where
  "epsilon_at cfg i =
     (case linspace (INITIAL_EXPLORATION cfg) (FINAL_EXPLORATION cfg)
             (FINAL_EXPLORATION_FRAME cfg) of
        Inl e \<Rightarrow> Inl e
      | Inr eps_list \<Rightarrow> getitem eps_list (min i (FINAL_EXPLORATION_FRAME cfg - 1)))"

section \<open>Trainer\<close>

text \<open>
  \<open>Trainer\<close> hands the one global network and the one optimizer to every worker
  process, and the processes write to one file system.  \<open>share w v\<close> is the worker
  \<open>v\<close> at a moment at which the shared objects are as the worker \<open>w\<close> has left
  them.  Everything else is the worker's own, the loop index \<open>i\<close> of its \<open>train\<close>
  included: nothing counts the iterations of all workers.
\<close>

definition share :: "worker \<Rightarrow> worker \<Rightarrow> worker" where
  "share w v = v\<lparr>shared_opt := shared_opt w, dirs := dirs w, files := files w\<rparr>"

section \<open>The accumulations the specification describes\<close>

text \<open>
  The specification describes the loop of the optimize step by recurrences over the
  buffered indices, read in reverse.  The functions below follow its words; \<open>n\<close> is
  the number of buffered steps and \<open>k\<close> the number of steps read so far, so that the
  step read last is \<open>n - k\<close>.  \<open>delta_spec\<close> is
  \<open>reward_i + discount * value_{i+1} - value_i\<close>.
\<close>

definition delta_spec :: "config \<Rightarrow> (key \<Rightarrow> fnum list) \<Rightarrow> nat \<Rightarrow> fnum" where
  "delta_spec cfg buf i =
     buf K_reward ! i + Fin (DISCOUNT cfg) * buf K_value ! (i + 1) - buf K_value ! i"

text \<open>\<open>gae = gae * discount + delta_i\<close>, from zero.\<close>

fun gae_spec :: "config \<Rightarrow> (key \<Rightarrow> fnum list) \<Rightarrow> nat \<Rightarrow> nat \<Rightarrow> fnum" where
  "gae_spec cfg buf n 0 = 0"
| "gae_spec cfg buf n (Suc k) =
     gae_spec cfg buf n k * Fin (DISCOUNT cfg) + delta_spec cfg buf (n - Suc k)"

text \<open>\<open>policy_loss -= log_prob_i * gae - entropy_coeff * entropy_i\<close>, from zero.\<close>

fun policy_loss_spec :: "config \<Rightarrow> (key \<Rightarrow> fnum list) \<Rightarrow> nat \<Rightarrow> nat \<Rightarrow> fnum" where
  "policy_loss_spec cfg buf n 0 = 0"
| "policy_loss_spec cfg buf n (Suc k) =
     policy_loss_spec cfg buf n k
       - (buf K_action_prob ! (n - Suc k) * gae_spec cfg buf n (Suc k)
            - Fin (ENTROPY_COEFF cfg) * buf K_entropy ! (n - Suc k))"

text \<open>
  \<open>value_loss += advantage^2\<close> with
  \<open>advantage = discounted_value_target - value_i\<close> and the discounted value target
  \<open>discount * value_{i+1} + reward_i\<close>, the value after the last step being the
  bootstrap value.
\<close>

fun value_loss_spec :: "config \<Rightarrow> (key \<Rightarrow> fnum list) \<Rightarrow> nat \<Rightarrow> nat \<Rightarrow> fnum" where
  "value_loss_spec cfg buf n 0 = 0"
| "value_loss_spec cfg buf n (Suc k) =
     value_loss_spec cfg buf n k
       + (Fin (DISCOUNT cfg) * buf K_value ! (n - Suc k + 1) + buf K_reward ! (n - Suc k)
            - buf K_value ! (n - Suc k))
         * (Fin (DISCOUNT cfg) * buf K_value ! (n - Suc k + 1) + buf K_reward ! (n - Suc k)
            - buf K_value ! (n - Suc k))"

text \<open>
  What the loop of the code adds up as value loss: the squared difference between the
  bootstrap value \<open>value_1\<close> and each stored value.
\<close>

fun sq_diff_sum :: "fnum \<Rightarrow> (key \<Rightarrow> fnum list) \<Rightarrow> nat \<Rightarrow> nat \<Rightarrow> fnum" where
  "sq_diff_sum value_1 buf n 0 = 0"
| "sq_diff_sum value_1 buf n (Suc k) =
     sq_diff_sum value_1 buf n k
       + (value_1 - buf K_value ! (n - Suc k)) * (value_1 - buf K_value ! (n - Suc k))"

text \<open>
  The sequences the recurrences range over: \<open>reward_i\<close>, \<open>value_i\<close>,
  \<open>log_prob_i\<close> and \<open>entropy_i\<close> are the reward, the stored value, the log
  probability and the entropy of the buffered experience \<open>i\<close>, and the value after
  the last buffered experience is the bootstrap value, zero if the episode terminated
  and the value of the forward pass on the following state otherwise.
\<close>

definition experience_spec :: "observation list \<Rightarrow> key \<Rightarrow> fnum list" where
  "experience_spec obs k =
     (case k of
        K_value \<Rightarrow> map o_value obs @ [if o_done (last obs) then 0 else o_next_value (last obs)]
      | K_action_prob \<Rightarrow> map o_log_prob obs
      | K_reward \<Rightarrow> map o_reward obs
      | K_entropy \<Rightarrow> map o_entropy obs)"

text \<open>All four keys are bound to one list object.\<close>

definition aliased :: "worker \<Rightarrow> bool" where
  "aliased w = list_all (\<lambda>k. buffer w k = buffer w K_value) [K_action_prob, K_reward, K_entropy]"

text \<open>
  The sizes of the lists of a buffer of \<open>buffer_length\<close> steps: either the four keys
  are bound to four lists of \<open>buffer_length\<close> entries each, or they are bound to
  one list of four entries per step.
\<close>

definition buffer_sizes_ok :: "worker \<Rightarrow> bool" where
  "buffer_sizes_ok w =
     (0 \<le> buffer_length w \<and>
      (if aliased w then length (contents w K_value) = 4 * nat (buffer_length w)
       else distinct (map (buffer w) [K_value, K_action_prob, K_reward, K_entropy]) \<and>
            list_all (\<lambda>k. length (contents w k) = nat (buffer_length w))
              [K_value, K_action_prob, K_reward, K_entropy]))"

section \<open>Scenarios\<close>

text \<open>
  A global network of two one-entry parameters under a fresh shared optimizer, and two
  calls of \<open>step\<close>: the first with a gradient on the first parameter only, the
  second with a gradient on both.
\<close>

definition unit_param :: param where
  "unit_param = \<lparr>data = [Fin 1], grad = None, state_step = 0, exp_avg = [], exp_avg_sq = []\<rparr>"

definition two_param_opt :: "group list" where
  "two_param_opt = SharedAdam_init [unit_param, unit_param] (1 / 10000)"

definition first_call :: "error + group list" where
  "first_call = SharedAdam_step (push_grads [Some [Fin 1], None] two_param_opt)"

definition second_call :: "error + group list" where
  "second_call =
     (case first_call of
        Inl e \<Rightarrow> Inl e
      | Inr opt \<Rightarrow> SharedAdam_step (push_grads [Some [Fin 1], Some [Fin 1]] opt))"

text \<open>
  A configuration, and a worker that is constructed over the optimizer of the scenario
  above, collects one step on which the game ends (stored value 0, reward 1), and
  computes the losses of its first optimization.
\<close>

definition example_config :: config where
  "example_config =
     \<lparr>DISCOUNT = 99 / 100, ENTROPY_COEFF = 1 / 100, VALUE_LOSS_COEFF = 1 / 2,
      BUFFER_UPDATE_FREQ = 5, SAVE_NETWORK_FREQ = 3, EXPERIMENT_NAME = ''exp'',
      INITIAL_EXPLORATION = 1, FINAL_EXPLORATION = 1 / 10, FINAL_EXPLORATION_FRAME = 10,
      TRAIN_ITERATIONS = 8\<rparr>"

definition terminal_step :: observation where
  "terminal_step =
     \<lparr>o_value = Fin 0, o_log_prob = Fin (- 1), o_entropy = Fin (1 / 2), o_reward = Fin 1,
      o_done = True, o_next_value = Fin 0, o_grads = [Some [Fin 1], Some [Fin 1]]\<rparr>"

definition first_losses :: "error + worker \<times> fnum \<times> fnum \<times> fnum" where
  "first_losses =
     (case ActorCriticWorker_init example_config 0 two_param_opt of
        Inl e \<Rightarrow> Inl e
      | Inr w \<Rightarrow> compute_losses example_config terminal_step (collect terminal_step w))"

text \<open>
  A run of the training loop of that worker over the iterations \<open>is\<close>, in which the
  game ends in iteration 2 and goes on in every other iteration.
\<close>

definition example_env :: "nat \<Rightarrow> observation" where
  "example_env i = (if i = 2 then terminal_step else terminal_step\<lparr>o_done := False\<rparr>)"

definition example_run :: "nat list \<Rightarrow> error + worker" where
  "example_run is =
     (case ActorCriticWorker_init example_config 0 two_param_opt of
        Inl e \<Rightarrow> Inl e
      | Inr w \<Rightarrow> train_loop example_config example_env is (w\<lparr>eplen := 0, loss := None\<rparr>))"

text \<open>
  The losses of the optimize step on the buffer of the steps \<open>obs\<close>, the last of which
  triggers the optimization: for a worker that has just been constructed, and for the
  worker of the run above after its iterations 1 and 2, the second of which has
  optimized and reset the buffer.
\<close>

definition losses_fresh :: "observation list \<Rightarrow> error + fnum \<times> fnum \<times> fnum" where
  "losses_fresh obs =
     (case ActorCriticWorker_init example_config 0 two_param_opt of
        Inl e \<Rightarrow> Inl e
      | Inr w \<Rightarrow>
          map_sum id snd
            (compute_losses example_config (last obs) (foldl (\<lambda>w ob. collect ob w) w obs)))"

definition losses_after_flush :: "observation list \<Rightarrow> error + fnum \<times> fnum \<times> fnum" where
  "losses_after_flush obs =
     (case example_run [1, 2] of
        Inl e \<Rightarrow> Inl e
      | Inr w \<Rightarrow>
          map_sum id snd
            (compute_losses example_config (last obs) (foldl (\<lambda>w ob. collect ob w) w obs)))"

text \<open>Two steps with the numbers of the step above; the game ends on the second.\<close>

definition two_steps :: "observation list" where
  "two_steps = [terminal_step\<lparr>o_done := False\<rparr>, terminal_step]"

text \<open>
  Two workers of one trainer: worker 0 runs its iterations 1, 2 and 3, and then worker
  1, constructed over the same optimizer, runs its iterations 1, 2 and 3.
\<close>

definition second_worker_run :: "error + worker" where
  "second_worker_run =
     (case example_run [1, 2, 3] of
        Inl e \<Rightarrow> Inl e
      | Inr w \<Rightarrow>
          (case ActorCriticWorker_init example_config 1 two_param_opt of
             Inl e \<Rightarrow> Inl e
           | Inr v \<Rightarrow>
               train_loop example_config example_env [1, 2, 3]
                 (share w (v\<lparr>eplen := 0, loss := None\<rparr>))))"

text \<open>
  The first optimization of that worker when the network returns \<open>NaN\<close> as the value
  of the only buffered step, and the backward pass leaves \<open>NaN\<close> gradients.
\<close>

definition nan_step :: observation where
  "nan_step = terminal_step\<lparr>o_value := NaN, o_grads := [Some [NaN], Some [NaN]]\<rparr>"

definition nan_cycle :: "error + fnum \<times> worker" where
  "nan_cycle =
     (case ActorCriticWorker_init example_config 0 two_param_opt of
        Inl e \<Rightarrow> Inl e
      | Inr w \<Rightarrow> optimize_model example_config nan_step (collect nan_step w))"

section \<open>Properties of SharedAdam\<close>

lemma step_size_Inr:
  "step_size g t = Inr s \<Longrightarrow> s = lr g * sqrt (1 - snd (betas g) ^ t) / (1 - fst (betas g) ^ t)"
  unfolding step_size_def Let_def
  by (cases "betas g") (simp split: if_splits)

lemma param_eq_fields:
  assumes "p\<lparr>data := d, state_step := t, exp_avg := a, exp_avg_sq := b\<rparr> = p'"
  shows "data p' = d" and "state_step p' = t" and "exp_avg p' = a" and "exp_avg_sq p' = b"
    and "grad p' = grad p"
  using assms by auto

lemma adam_update_fields:
  assumes "adam_update g p g0 = Inr p'"
  shows "\<exists>s. step_size g (float32_succ (state_step p)) = Inr s \<and>
    state_step p' = float32_succ (state_step p) \<and>
    grad p' = grad p \<and>
    data p' = map2 (\<lambda>d q. d + Fin (- s) * q) (data p)
             (map2 (\<lambda>m v. m / v) (exp_avg p') (map (\<lambda>v. fsqrt v + Fin (eps g)) (exp_avg_sq p')))"
proof (cases "step_size g (float32_succ (state_step p))")
  case (Inl e)
  with assms show ?thesis
    unfolding adam_update_def Let_def case_prod_beta by simp
next
  case (Inr s)
  note e = assms[unfolded adam_update_def Let_def case_prod_beta Inr sum.case sum.inject]
  note f = param_eq_fields[OF e]
  have "data p' = map2 (\<lambda>d q. d + Fin (- s) * q) (data p)
             (map2 (\<lambda>m v. m / v) (exp_avg p') (map (\<lambda>v. fsqrt v + Fin (eps g)) (exp_avg_sq p')))"
    unfolding f(3,4) case_prod_beta by (rule f(1))
  with Inr f(2) f(5) show ?thesis
    by blast
qed

lemma step_params_length: "step_params g ps = Inr ps' \<Longrightarrow> length ps' = length ps"
  by (induction ps arbitrary: ps') (auto split: option.splits sum.splits)

lemma step_params_nth_None:
  "step_params g ps = Inr ps' \<Longrightarrow> k < length ps \<Longrightarrow> grad (ps ! k) = None \<Longrightarrow> ps' ! k = ps ! k"
proof (induction ps arbitrary: ps' k)
  case Nil
  then show ?case by simp
next
  case (Cons p ps)
  then show ?case
    by (cases k) (auto split: option.splits sum.splits)
qed

lemma step_params_nth_Some:
  "step_params g ps = Inr ps' \<Longrightarrow> k < length ps \<Longrightarrow> grad (ps ! k) = Some g0 \<Longrightarrow>
     adam_update g (ps ! k) g0 = Inr (ps' ! k)"
proof (induction ps arbitrary: ps' k)
  case Nil
  then show ?case by simp
next
  case (Cons p ps)
  then show ?case
    by (cases k) (auto split: option.splits sum.splits)
qed

lemma step_params_error:
  "step_params g ps = Inl e \<Longrightarrow> \<exists>p\<in>set ps. \<exists>g0. grad p = Some g0 \<and> adam_update g p g0 = Inl e"
  by (induction ps) (auto split: option.splits sum.splits)

lemma SharedAdam_step_length: "SharedAdam_step gs = Inr gs' \<Longrightarrow> length gs' = length gs"
  by (induction gs arbitrary: gs') (auto split: sum.splits)

lemma SharedAdam_step_nth:
  "SharedAdam_step gs = Inr gs' \<Longrightarrow> j < length gs \<Longrightarrow>
     step_params (gs ! j) (params (gs ! j)) = Inr (params (gs' ! j))"
proof (induction gs arbitrary: gs' j)
  case Nil
  then show ?case by simp
next
  case (Cons g gs)
  then show ?case
    by (cases j) (auto split: sum.splits)
qed

lemma SharedAdam_step_error:
  "SharedAdam_step gs = Inl e \<Longrightarrow> \<exists>g\<in>set gs. step_params g (params g) = Inl e"
  by (induction gs) (auto split: sum.splits)

lemma step_params_all_None:
  "\<forall>p\<in>set ps. grad p = None \<Longrightarrow> step_params g ps = Inr ps"
  by (induction ps) auto

lemma SharedAdam_step_all_None:
  "\<forall>g\<in>set gs. \<forall>p\<in>set (params g). grad p = None \<Longrightarrow> SharedAdam_step gs = Inr gs"
  by (induction gs) (auto simp: step_params_all_None)

lemma sqrt_plus_eps_nonzero: "0 \<le> x \<Longrightarrow> sqrt x + 1 / 100000000 \<noteq> 0"
proof -
  assume "0 \<le> x"
  then have "0 \<le> sqrt x" by simp
  then show ?thesis by linarith
qed

lemma float32_succ_step:
  "n \<le> 16777216 \<Longrightarrow> float32_succ n = (if n < 16777216 then Suc n else n)"
  unfolding float32_succ_def by simp

text \<open>After \<open>n\<close> additions a counter that started at zero holds \<open>min n 16777216\<close>.\<close>

lemma float32_succ_saturates: "(float32_succ ^^ n) 0 = min n 16777216"
proof (induction n)
  case 0
  then show ?case by simp
next
  case (Suc n)
  have "(float32_succ ^^ Suc n) 0 = float32_succ (min n 16777216)"
    using Suc by simp
  also have "\<dots> = (if min n 16777216 < 16777216 then Suc (min n 16777216) else min n 16777216)"
    by (rule float32_succ_step) simp
  also have "\<dots> = min (Suc n) 16777216"
    by (auto simp: min_def)
  finally show ?case .
qed

lemma first_call_counts: "map_sum id step_counts first_call = Inr [[1, 0]]"
  by (simp add: first_call_def two_param_opt_def unit_param_def SharedAdam_init_def init_state_def
        adam_update_def step_size_def zero_fnum_def step_counts_def sqrt_plus_eps_nonzero
        float32_succ_def)

text \<open>
  Claim C1, as stated: one step counter is shared by all parameter tensors and is
  incremented once per call of \<open>step\<close>.  The code keeps the counter in
  \<open>self.state[p]\<close>, one per tensor, and increments it only for a tensor that has a
  gradient: after the two calls of the scenario the first tensor has counted two steps
  and the second, updated in the second call only, has counted one.
\<close>

theorem step_counter_not_global: "map_sum id step_counts second_call = Inr [[2, 1]]"
  by (simp add: second_call_def first_call_def two_param_opt_def unit_param_def SharedAdam_init_def init_state_def
        adam_update_def step_size_def zero_fnum_def step_counts_def sqrt_plus_eps_nonzero
        float32_succ_def)

text \<open>
  Claim C1, amended: every parameter tensor has a step counter of its own.  A call of
  \<open>step\<close> that returns leaves the counter of a tensor without gradient as it was.
  For a tensor with a gradient it adds 1 to that tensor's counter in \<open>float32\<close>
  arithmetic, which increments a counter below \<open>16777216\<close> and leaves a counter of
  \<open>16777216\<close> as it is, and it updates the tensor in place with the step size
  \<open>lr * sqrt (1 - beta2 ^ t) / (1 - beta1 ^ t)\<close> of the value \<open>t\<close> the counter of
  that tensor then has.
\<close>

theorem SharedAdam_step_own_counter:
  assumes "SharedAdam_step gs = Inr gs'" and "j < length gs" and "k < length (params (gs ! j))"
  shows "case grad (params (gs ! j) ! k) of
           None \<Rightarrow> state_step (params (gs' ! j) ! k) = state_step (params (gs ! j) ! k)
         | Some g0 \<Rightarrow>
             (let g = gs ! j; p = params g ! k; p' = params (gs' ! j) ! k;
                  t = float32_succ (state_step p);
                  s = lr g * sqrt (1 - snd (betas g) ^ t) / (1 - fst (betas g) ^ t)
              in state_step p' = t \<and> step_size g t = Inr s \<and>
                 data p' =
                   map2 (\<lambda>d q. d + Fin (- s) * q) (data p)
                     (map2 (\<lambda>m v. m / v) (exp_avg p')
                        (map (\<lambda>v. fsqrt v + Fin (eps g)) (exp_avg_sq p'))))"
proof -
  from assms(1,2) have sp: "step_params (gs ! j) (params (gs ! j)) = Inr (params (gs' ! j))"
    by (rule SharedAdam_step_nth)
  show ?thesis
  proof (cases "grad (params (gs ! j) ! k)")
    case None
    with sp assms(3) show ?thesis
      by (simp add: step_params_nth_None)
  next
    case (Some g0)
    with sp assms(3) have "adam_update (gs ! j) (params (gs ! j) ! k) g0 = Inr (params (gs' ! j) ! k)"
      by (simp add: step_params_nth_Some)
    from adam_update_fields[OF this] obtain s where
      s: "step_size (gs ! j) (float32_succ (state_step (params (gs ! j) ! k))) = Inr s"
      and t: "state_step (params (gs' ! j) ! k) = float32_succ (state_step (params (gs ! j) ! k))"
      and d: "data (params (gs' ! j) ! k) = map2 (\<lambda>d q. d + Fin (- s) * q) (data (params (gs ! j) ! k))
             (map2 (\<lambda>m v. m / v) (exp_avg (params (gs' ! j) ! k))
                (map (\<lambda>v. fsqrt v + Fin (eps (gs ! j))) (exp_avg_sq (params (gs' ! j) ! k))))"
      by blast
    from step_size_Inr[OF s] s t d Some show ?thesis
      unfolding Let_def by simp
  qed
qed

theorem SharedAdam_step_own_counter_witness:
  "\<exists>gs'. first_call = Inr gs' \<and> state_step (params (gs' ! 0) ! 0) = 1 \<and>
      state_step (params (gs' ! 0) ! 1) = 0"
proof -
  let ?gs = "push_grads [Some [Fin 1], None] two_param_opt"
  obtain gs' where r: "SharedAdam_step ?gs = Inr gs'"
    using first_call_counts by (cases first_call) (auto simp: first_call_def)
  have len: "0 < length ?gs" "0 < length (params (?gs ! 0))" "1 < length (params (?gs ! 0))"
    by (simp_all add: two_param_opt_def SharedAdam_init_def)
  have g0: "grad (params (?gs ! 0) ! 0) = Some [Fin 1]" and g1: "grad (params (?gs ! 0) ! 1) = None"
    and s0: "state_step (params (?gs ! 0) ! 0) = 0" and s1: "state_step (params (?gs ! 0) ! 1) = 0"
    by (simp_all add: two_param_opt_def SharedAdam_init_def init_state_def unit_param_def)
  from SharedAdam_step_own_counter[OF r len(1) len(2)] g0 s0
  have "state_step (params (gs' ! 0) ! 0) = 1"
    by (simp add: Let_def float32_succ_def)
  moreover from SharedAdam_step_own_counter[OF r len(1) len(3)] g1 s1
  have "state_step (params (gs' ! 0) ! 1) = 0"
    by simp
  ultimately show ?thesis
    using r by (simp add: first_call_def)
qed

text \<open>
  Claim C10: a parameter tensor whose gradient is missing is skipped.  When \<open>step\<close>
  returns, such a tensor is what it was before the call, in its values, its two moment
  estimates and its step counter; when \<open>step\<close> raises, the exception comes from the
  update of a tensor that has a gradient; and a call in which no tensor has a gradient
  returns the optimizer unchanged.
\<close>

theorem SharedAdam_step_skips_null_grad:
  "(SharedAdam_step gs = Inr gs' \<longrightarrow>
      (\<forall>j k. j < length gs \<longrightarrow> k < length (params (gs ! j)) \<longrightarrow>
         grad (params (gs ! j) ! k) = None \<longrightarrow> params (gs' ! j) ! k = params (gs ! j) ! k)) \<and>
   (SharedAdam_step gs = Inl e \<longrightarrow>
      (\<exists>g\<in>set gs. \<exists>p\<in>set (params g). \<exists>g0. grad p = Some g0 \<and> adam_update g p g0 = Inl e)) \<and>
   ((\<forall>g\<in>set gs. \<forall>p\<in>set (params g). grad p = None) \<longrightarrow> SharedAdam_step gs = Inr gs)"
proof (intro conjI impI allI)
  fix j k
  assume "SharedAdam_step gs = Inr gs'" "j < length gs" "k < length (params (gs ! j))"
    "grad (params (gs ! j) ! k) = None"
  then show "params (gs' ! j) ! k = params (gs ! j) ! k"
    using SharedAdam_step_nth step_params_nth_None by blast
next
  assume "SharedAdam_step gs = Inl e"
  then obtain g where "g \<in> set gs" "step_params g (params g) = Inl e"
    using SharedAdam_step_error by blast
  then show "\<exists>g\<in>set gs. \<exists>p\<in>set (params g). \<exists>g0. grad p = Some g0 \<and> adam_update g p g0 = Inl e"
    using step_params_error by blast
next
  assume "\<forall>g\<in>set gs. \<forall>p\<in>set (params g). grad p = None"
  then show "SharedAdam_step gs = Inr gs"
    by (rule SharedAdam_step_all_None)
qed

theorem SharedAdam_step_skips_null_grad_witness:
  "\<exists>gs'. first_call = Inr gs' \<and>
      params (gs' ! 0) ! 1 = params (push_grads [Some [Fin 1], None] two_param_opt ! 0) ! 1"
proof -
  let ?gs = "push_grads [Some [Fin 1], None] two_param_opt"
  obtain gs' where r: "SharedAdam_step ?gs = Inr gs'"
    using first_call_counts by (cases first_call) (auto simp: first_call_def)
  have "0 < length ?gs" "1 < length (params (?gs ! 0))" "grad (params (?gs ! 0) ! 1) = None"
    by (simp_all add: two_param_opt_def SharedAdam_init_def init_state_def unit_param_def)
  with SharedAdam_step_skips_null_grad[of ?gs gs'] r
  have "params (gs' ! 0) ! 1 = params (?gs ! 0) ! 1"
    by blast
  with r show ?thesis
    by (simp add: first_call_def)
qed

section \<open>The exploration schedule\<close>

lemma epsilon_at_closed:
  assumes "2 \<le> FINAL_EXPLORATION_FRAME cfg" and "0 \<le> i"
  shows "epsilon_at cfg i =
           Inr (if FINAL_EXPLORATION_FRAME cfg - 1 \<le> i then FINAL_EXPLORATION cfg
                else INITIAL_EXPLORATION cfg +
                     real_of_int i * ((FINAL_EXPLORATION cfg - INITIAL_EXPLORATION cfg)
                                        / real_of_int (FINAL_EXPLORATION_FRAME cfg - 1)))"
proof -
  let ?n = "FINAL_EXPLORATION_FRAME cfg"
  let ?f = "\<lambda>k. INITIAL_EXPLORATION cfg + real k * ((FINAL_EXPLORATION cfg - INITIAL_EXPLORATION cfg) / real_of_int (?n - 1))"
  let ?xs = "map ?f [0..<nat ?n - 1] @ [FINAL_EXPLORATION cfg]"
  have lin: "linspace (INITIAL_EXPLORATION cfg) (FINAL_EXPLORATION cfg) ?n = Inr ?xs"
    using assms(1) by (simp add: linspace_def)
  have len: "int (length ?xs) = ?n"
    using assms(1) by simp
  let ?k = "min i (?n - 1)"
  have k: "0 \<le> ?k" "?k < int (length ?xs)"
    using assms len by simp_all
  then have get: "getitem ?xs ?k = Inr (?xs ! nat ?k)"
    unfolding getitem_def by simp
  show ?thesis
  proof (cases "?n - 1 \<le> i")
    case True
    then have "nat ?k = length (map ?f [0..<nat ?n - 1])"
      using assms(1) by simp
    then have "?xs ! nat ?k = FINAL_EXPLORATION cfg"
      by (metis nth_append_length)
    with lin get True show ?thesis
      by (simp add: epsilon_at_def)
  next
    case False
    then have lt: "nat i < nat ?n - 1" and ki: "?k = i"
      using assms by simp_all
    then have "?xs ! nat ?k = ?f (nat i)"
      by (simp add: nth_append)
    with lin get False assms(2) ki show ?thesis
      by (simp add: epsilon_at_def)
  qed
qed

lemma anneal_mono:
  fixes a b :: real
  assumes "b \<le> a" "i \<le> j" "0 < n"
  shows "a + real_of_int j * ((b - a) / real_of_int n) \<le> a + real_of_int i * ((b - a) / real_of_int n)"
proof -
  have "(b - a) / real_of_int n \<le> 0"
    using assms(1,3) by (simp add: divide_nonpos_pos)
  moreover have "real_of_int i \<le> real_of_int j"
    using assms(2) by simp
  ultimately have "real_of_int j * ((b - a) / real_of_int n) \<le> real_of_int i * ((b - a) / real_of_int n)"
    by (rule mult_right_mono_neg[rotated])
  then show ?thesis by simp
qed

lemma anneal_ge_final:
  fixes a b :: real
  assumes "b \<le> a" "i \<le> n" "0 < n"
  shows "b \<le> a + real_of_int i * ((b - a) / real_of_int n)"
proof -
  have "a + real_of_int n * ((b - a) / real_of_int n) = b"
    using assms(3) by simp
  with anneal_mono[OF assms(1,2,3)] show ?thesis
    by simp
qed

lemma epsilon_at_constructed:
  assumes "ActorCriticWorker_init cfg n opt = Inr w"
  shows "getitem (epsilon w) (min i (FINAL_EXPLORATION_FRAME cfg - 1)) = epsilon_at cfg i"
proof -
  let ?l = "linspace (INITIAL_EXPLORATION cfg) (FINAL_EXPLORATION cfg) (FINAL_EXPLORATION_FRAME cfg)"
  from assms obtain e where e: "?l = Inr e"
    by (cases ?l) (simp_all add: ActorCriticWorker_init_def)
  with assms have "epsilon w = e"
    by (auto simp: ActorCriticWorker_init_def)
  with e show ?thesis
    by (simp add: epsilon_at_def)
qed

text \<open>
  Claim C6: the exploration rate is the initial value at iteration 0 and the final
  value at the horizon, it never increases from one iteration to a later one, and it
  stays at the final value from the horizon on.  The horizon holds at least two
  samples and the final value is not above the initial one, as annealing means; the
  rates are real numbers.
\<close>

theorem epsilon_schedule:
  assumes "2 \<le> FINAL_EXPLORATION_FRAME cfg"
    and "FINAL_EXPLORATION cfg \<le> INITIAL_EXPLORATION cfg"
  shows "epsilon_at cfg 0 = Inr (INITIAL_EXPLORATION cfg) \<and>
         epsilon_at cfg (FINAL_EXPLORATION_FRAME cfg) = Inr (FINAL_EXPLORATION cfg) \<and>
         (\<forall>i j. 0 \<le> i \<and> i \<le> j \<longrightarrow>
            (\<exists>a b. epsilon_at cfg i = Inr a \<and> epsilon_at cfg j = Inr b \<and> b \<le> a)) \<and>
         (\<forall>i. FINAL_EXPLORATION_FRAME cfg \<le> i \<longrightarrow>
            epsilon_at cfg i = Inr (FINAL_EXPLORATION cfg))"
proof (intro conjI allI impI)
  show "epsilon_at cfg 0 = Inr (INITIAL_EXPLORATION cfg)"
    using assms(1) by (simp add: epsilon_at_closed)
  show "epsilon_at cfg (FINAL_EXPLORATION_FRAME cfg) = Inr (FINAL_EXPLORATION cfg)"
    using assms(1) by (simp add: epsilon_at_closed)
next
  fix i assume "FINAL_EXPLORATION_FRAME cfg \<le> i"
  then show "epsilon_at cfg i = Inr (FINAL_EXPLORATION cfg)"
    using assms(1) by (simp add: epsilon_at_closed)
next
  fix i j :: int
  assume ij: "0 \<le> i \<and> i \<le> j"
  let ?n = "FINAL_EXPLORATION_FRAME cfg - 1"
  let ?e = "\<lambda>i. if ?n \<le> i then FINAL_EXPLORATION cfg
                else INITIAL_EXPLORATION cfg +
                     real_of_int i * ((FINAL_EXPLORATION cfg - INITIAL_EXPLORATION cfg)
                                        / real_of_int ?n)"
  have n: "0 < ?n" using assms(1) by simp
  have ei: "epsilon_at cfg i = Inr (?e i)" and ej: "epsilon_at cfg j = Inr (?e j)"
    using assms(1) ij by (simp_all add: epsilon_at_closed)
  have "?e j \<le> ?e i"
  proof (cases "?n \<le> j")
    case True
    show ?thesis
    proof (cases "?n \<le> i")
      case True
      with \<open>?n \<le> j\<close> show ?thesis by simp
    next
      case False
      then have "i \<le> ?n" by simp
      from anneal_ge_final[OF assms(2) this n] True False show ?thesis
        by simp
    qed
  next
    case False
    with ij have "\<not> ?n \<le> i" by simp
    with False anneal_mono[OF assms(2) _ n, of i j] ij show ?thesis
      by simp
  qed
  with ei ej show "\<exists>a b. epsilon_at cfg i = Inr a \<and> epsilon_at cfg j = Inr b \<and> b \<le> a"
    by blast
qed

theorem epsilon_schedule_witness:
  "epsilon_at example_config 0 = Inr 1 \<and> epsilon_at example_config 10 = Inr (1 / 10) \<and>
   epsilon_at example_config 1000 = Inr (1 / 10)"
  using epsilon_schedule[of example_config]
  by (simp add: example_config_def)

section \<open>The losses of the optimize step\<close>

lemma loss_loop_append:
  "loss_loop cfg v buf (xs @ ys) acc =
     (case loss_loop cfg v buf xs acc of Inl e \<Rightarrow> Inl e | Inr acc' \<Rightarrow> loss_loop cfg v buf ys acc')"
  by (induction xs arbitrary: acc) (auto split: sum.splits)

lemma rev_upt_last: "k < n \<Longrightarrow> rev [n - Suc k..<n] = rev [n - k..<n] @ [n - Suc k]"
proof -
  assume k: "k < n"
  then have "n - Suc k < n" and "Suc (n - Suc k) = n - k"
    by arith+
  with upt_conv_Cons[of "n - Suc k" n] have "[n - Suc k..<n] = (n - Suc k) # [n - k..<n]"
    by simp
  then show ?thesis by simp
qed

lemma loss_loop_spec:
  assumes "n \<le> length (buf K_reward)" "n < length (buf K_value)"
    "n \<le> length (buf K_action_prob)" "n \<le> length (buf K_entropy)"
  shows "k \<le> n \<Longrightarrow>
    loss_loop cfg v buf (rev [n - k..<n]) (0, 0, 0) =
      Inr (sq_diff_sum v buf n k, policy_loss_spec cfg buf n k, gae_spec cfg buf n k)"
proof (induction k)
  case 0
  then show ?case by simp
next
  case (Suc k)
  then have k: "k < n" by simp
  from k assms have idx: "n - Suc k < length (buf K_action_prob)"
      "n - Suc k + 1 < length (buf K_value)" "n - Suc k < length (buf K_reward)"
      "n - Suc k < length (buf K_entropy)"
    by arith+
  then have "loss_body cfg v buf (n - Suc k)
      (sq_diff_sum v buf n k, policy_loss_spec cfg buf n k, gae_spec cfg buf n k) =
      Inr (sq_diff_sum v buf n (Suc k), policy_loss_spec cfg buf n (Suc k), gae_spec cfg buf n (Suc k))"
    by (simp add: loss_body_def Let_def detach_def delta_spec_def)
  with Suc k show ?case
    by (simp add: rev_upt_last loss_loop_append)
qed

lemma contents_buffer_append:
  "contents (buffer_append k x w) k' =
     (if buffer w k' = buffer w k then contents w k @ [x] else contents w k')"
  by (simp add: contents_def buffer_append_def)

lemma buffer_append_fields:
  "buffer (buffer_append k x w) = buffer w"
  "buffer_length (buffer_append k x w) = buffer_length w"
  "shared_opt (buffer_append k x w) = shared_opt w"
  "next_ref (buffer_append k x w) = next_ref w"
  "files (buffer_append k x w) = files w"
  by (simp_all add: buffer_append_def)

lemma compute_losses_spec:
  assumes "nat (buffer_length w) \<le> length (contents w K_reward)"
    and "nat (buffer_length w) \<le> length (contents w K_value)"
    and "nat (buffer_length w) \<le> length (contents w K_action_prob)"
    and "nat (buffer_length w) \<le> length (contents w K_entropy)"
  shows "compute_losses cfg ob w =
           (let n = nat (buffer_length w);
                w' = buffer_append K_value (bootstrap_value ob) w
            in Inr (w', sq_diff_sum (bootstrap_value ob) (contents w') n n,
                    policy_loss_spec cfg (contents w') n n, gae_spec cfg (contents w') n n))"
proof -
  let ?n = "nat (buffer_length w)"
  let ?w = "buffer_append K_value (bootstrap_value ob) w"
  have "?n \<le> length (contents ?w K_reward)" "?n < length (contents ?w K_value)"
    "?n \<le> length (contents ?w K_action_prob)" "?n \<le> length (contents ?w K_entropy)"
    using assms by (simp_all add: contents_buffer_append)
  from loss_loop_spec[OF this, of ?n cfg "bootstrap_value ob"]
  show ?thesis
    by (simp add: compute_losses_def Let_def buffer_append_fields)
qed

lemma init_fields:
  assumes "ActorCriticWorker_init cfg n opt = Inr w"
  shows "buffer_length w = 0" and "shared_opt w = opt" and "files w = Map.empty"
    and "heap w = (\<lambda>_. [])"
    and "buffer w K_value = 0" and "buffer w K_action_prob = 1" and "buffer w K_reward = 2"
    and "buffer w K_entropy = 3" and "w\<lparr>eplen := 0, loss := None\<rparr> = w"
proof -
  let ?l = "linspace (INITIAL_EXPLORATION cfg) (FINAL_EXPLORATION cfg) (FINAL_EXPLORATION_FRAME cfg)"
  from assms obtain e where "?l = Inr e"
    by (cases ?l) (simp_all add: ActorCriticWorker_init_def)
  with assms have w: "w = \<lparr>wid = n, shared_opt = opt,
               buffer = (\<lambda>k. case k of K_value \<Rightarrow> 0 | K_action_prob \<Rightarrow> 1
                                     | K_reward \<Rightarrow> 2 | K_entropy \<Rightarrow> 3),
               heap = (\<lambda>_. []), next_ref = 4, buffer_length = 0, epsilon = e,
               eplen = 0, loss = None, dirs = {}, files = Map.empty, scalars = []\<rparr>"
    by (simp add: ActorCriticWorker_init_def)
  show "buffer_length w = 0" "shared_opt w = opt" "files w = Map.empty" "heap w = (\<lambda>_. [])"
    "buffer w K_value = 0" "buffer w K_action_prob = 1" "buffer w K_reward = 2"
    "buffer w K_entropy = 3" "w\<lparr>eplen := 0, loss := None\<rparr> = w"
    unfolding w by simp_all
qed

lemma collect_first_step:
  assumes "ActorCriticWorker_init cfg n opt = Inr w"
  shows "contents (collect ob w) K_value = [o_value ob]"
    and "contents (collect ob w) K_action_prob = [o_log_prob ob]"
    and "contents (collect ob w) K_reward = [o_reward ob]"
    and "contents (collect ob w) K_entropy = [o_entropy ob]"
    and "buffer_length (collect ob w) = 1"
    and "buffer (collect ob w) = buffer w"
  using init_fields[OF assms]
  by (simp_all add: collect_def Let_def contents_def buffer_append_def)

lemma first_worker:
  "\<exists>w. ActorCriticWorker_init example_config 0 two_param_opt = Inr w"
  by (simp add: ActorCriticWorker_init_def example_config_def linspace_def)

lemma loss_recurrences:
  assumes "nat (buffer_length w) \<le> length (contents w K_reward)"
    and "nat (buffer_length w) \<le> length (contents w K_value)"
    and "nat (buffer_length w) \<le> length (contents w K_action_prob)"
    and "nat (buffer_length w) \<le> length (contents w K_entropy)"
  shows "let n = nat (buffer_length w);
             value_1 = (if o_done ob then 0 else o_next_value ob);
             w' = buffer_append K_value value_1 w;
             buf = contents w'
         in map_sum id (\<lambda>r. (fst r, snd (snd r))) (compute_losses cfg ob w) =
              Inr (w', policy_loss_spec cfg buf n n, gae_spec cfg buf n n) \<and>
            (if length (contents w K_value) = n then buf K_value ! n = value_1 else True)"
  using compute_losses_spec[OF assms, of cfg ob]
  by (simp add: Let_def bootstrap_value_def contents_buffer_append nth_append)

text \<open>
  Claim C2 describes the value loss as the sum of the squares of
  \<open>discounted_value_target_i - value_i\<close>.  The loop computes the discounted value
  target \<open>value_target\<close> and never uses it: the advantage it squares is
  \<open>value_1 - value_i\<close>, the bootstrap value minus the stored value.  In the first
  optimization of the scenario (one step, stored value 0, reward 1, episode ended) the
  code returns the value loss 0, and the sum the claim describes is 1.
\<close>

theorem value_loss_ignores_value_target:
  "map_sum id (\<lambda>r. (fst (snd r), value_loss_spec example_config (contents (fst r)) 1 1))
     first_losses = Inr (Fin 0, Fin 1)"
proof -
  obtain w where w: "ActorCriticWorker_init example_config 0 two_param_opt = Inr w"
    using first_worker by blast
  let ?w = "collect terminal_step w"
  note c = collect_first_step[OF w, of terminal_step]
  have c0: "contents ?w K_value = [Fin 0]" "contents ?w K_reward = [Fin 1]"
    using c by (simp_all add: terminal_step_def)
  let ?w' = "buffer_append K_value (bootstrap_value terminal_step) ?w"
  have "compute_losses example_config terminal_step ?w =
          Inr (?w', sq_diff_sum (bootstrap_value terminal_step) (contents ?w') 1 1,
               policy_loss_spec example_config (contents ?w') 1 1,
               gae_spec example_config (contents ?w') 1 1)"
    using compute_losses_spec[of ?w example_config terminal_step] c by (simp add: Let_def)
  then have fl: "first_losses =
          Inr (?w', sq_diff_sum (bootstrap_value terminal_step) (contents ?w') 1 1,
               policy_loss_spec example_config (contents ?w') 1 1,
               gae_spec example_config (contents ?w') 1 1)"
    by (simp add: first_losses_def w)
  have b: "bootstrap_value terminal_step = Fin 0"
    by (simp add: bootstrap_value_def terminal_step_def zero_fnum_def)
  have c': "contents ?w' K_value = [Fin 0, Fin 0]" "contents ?w' K_reward = [Fin 1]"
    using init_fields(5-8)[OF w]
    by (simp_all add: contents_buffer_append c0 c(6) b)
  have "sq_diff_sum (Fin 0) (contents ?w') 1 1 = Fin 0"
    and "value_loss_spec example_config (contents ?w') 1 1 = Fin 1"
    by (simp_all add: c' zero_fnum_def example_config_def)
  then show ?thesis
    by (simp add: fl b)
qed

section \<open>The training loop\<close>

lemma aliased_iff: "aliased w \<longleftrightarrow> (\<forall>k. buffer w k = buffer w K_value)"
proof
  assume a: "aliased w"
  show "\<forall>k. buffer w k = buffer w K_value"
  proof
    fix k from a show "buffer w k = buffer w K_value"
      by (cases k) (simp_all add: aliased_def)
  qed
next
  assume "\<forall>k. buffer w k = buffer w K_value"
  then show "aliased w" by (simp add: aliased_def)
qed

lemma collect_fields:
  "buffer (collect ob w) = buffer w"
  "buffer_length (collect ob w) = buffer_length w + 1"
  "shared_opt (collect ob w) = shared_opt w"
  "files (collect ob w) = files w"
  by (simp_all add: collect_def Let_def buffer_append_fields)

lemma collect_aliased:
  assumes "aliased w"
  shows "contents (collect ob w) k =
           contents w K_value @ [o_value ob, o_log_prob ob, o_reward ob, o_entropy ob]"
  using assms
  by (cases k) (simp_all add: aliased_def collect_def Let_def contents_def buffer_append_def)

lemma compute_losses_fields:
  assumes "compute_losses cfg ob w = Inr (w', acc)"
  shows "w' = buffer_append K_value (bootstrap_value ob) w"
  using assms by (simp add: compute_losses_def Let_def split: sum.splits)

lemma optimize_model_fields:
  assumes "optimize_model cfg ob w = Inr (l, w')"
  shows "buffer w' = buffer w" and "buffer_length w' = buffer_length w"
    and "heap w' = heap (buffer_append K_value (bootstrap_value ob) w)"
    and "files w' = files w"
    and "SharedAdam_step (push_grads (o_grads ob) (zero_grad (shared_opt w))) = Inr (shared_opt w')"
proof -
  from assms obtain w1 lv lp g opt where
    c: "compute_losses cfg ob w = Inr (w1, lv, lp, g)"
    and s: "SharedAdam_step (push_grads (o_grads ob) (zero_grad (shared_opt w1))) = Inr opt"
    and w': "w' = w1\<lparr>shared_opt := opt\<rparr>"
    by (auto simp: optimize_model_def split: sum.splits prod.splits)
  from compute_losses_fields[OF c] have w1: "w1 = buffer_append K_value (bootstrap_value ob) w" .
  show "buffer w' = buffer w" "buffer_length w' = buffer_length w"
    "heap w' = heap (buffer_append K_value (bootstrap_value ob) w)" "files w' = files w"
    by (simp_all add: w' w1 buffer_append_fields)
  from s show "SharedAdam_step (push_grads (o_grads ob) (zero_grad (shared_opt w))) = Inr (shared_opt w')"
    by (simp add: w' w1 buffer_append_fields)
qed

lemma clear_buffers_fields:
  "aliased (clear_buffers w)" "buffer_length (clear_buffers w) = 0"
  "contents (clear_buffers w) k = []" "files (clear_buffers w) = files w"
  "shared_opt (clear_buffers w) = shared_opt w"
  by (simp_all add: clear_buffers_def aliased_def contents_def)

lemma end_episode_fields:
  "buffer (end_episode i w) = buffer w" "heap (end_episode i w) = heap w"
  "buffer_length (end_episode i w) = buffer_length w" "files (end_episode i w) = files w"
  "shared_opt (end_episode i w) = shared_opt w"
  by (simp_all add: end_episode_def add_scalar_def)

lemma flush_fields:
  assumes "flush cfg i ob w = Inr w'"
  shows "aliased w'" and "buffer_length w' = 0" and "contents w' k = []" and "files w' = files w"
    and "SharedAdam_step (push_grads (o_grads ob) (zero_grad (shared_opt w))) = Inr (shared_opt w')"
proof -
  from assms obtain l w1 where o: "optimize_model cfg ob w = Inr (l, w1)"
    by (cases "optimize_model cfg ob w") (auto simp: flush_def)
  let ?w2 = "clear_buffers (w1\<lparr>loss := Some l\<rparr>)"
  from assms o have w': "w' = (if o_done ob then end_episode i ?w2 else ?w2)"
    by (simp add: flush_def Let_def)
  have same: "buffer w' = buffer ?w2" "heap w' = heap ?w2" "buffer_length w' = buffer_length ?w2"
    "files w' = files ?w2" "shared_opt w' = shared_opt ?w2"
    unfolding w' by (simp_all add: end_episode_fields)
  have a: "aliased ?w2" "buffer_length ?w2 = 0" "contents ?w2 k = []" "files ?w2 = files w1"
    "shared_opt ?w2 = shared_opt w1"
    by (simp_all add: clear_buffers_fields)
  from a same show "aliased w'" "buffer_length w' = 0" "contents w' k = []"
    by (simp_all add: aliased_def contents_def)
  from a same optimize_model_fields(4)[OF o] show "files w' = files w"
    by simp
  from a same optimize_model_fields(5)[OF o]
  show "SharedAdam_step (push_grads (o_grads ob) (zero_grad (shared_opt w))) = Inr (shared_opt w')"
    by simp
qed

lemma save_network_fields:
  assumes "save_network cfg i w = Inr w'"
  shows "buffer w' = buffer w" and "heap w' = heap w" and "buffer_length w' = buffer_length w"
    and "shared_opt w' = shared_opt w"
    and "files w' = (if int i mod SAVE_NETWORK_FREQ cfg = 0
                     then (files w)(checkpoint_path cfg i \<mapsto> state_dict (shared_opt w))
                     else files w)"
  using assms by (auto simp: save_network_def split: if_splits)

lemma write_log_fields:
  assumes "write_log i w = Inr w'"
  shows "buffer w' = buffer w" and "heap w' = heap w" and "buffer_length w' = buffer_length w"
    and "shared_opt w' = shared_opt w" and "files w' = files w"
  using assms by (auto simp: write_log_def add_scalar_def split: if_splits option.splits)

lemma train_iter_cases:
  assumes "train_iter cfg i ob w = Inr w'"
  obtains w2 w3 where
    "BUFFER_UPDATE_FREQ cfg \<noteq> 0"
    "if flush_due cfg ob (collect ob w) then flush cfg i ob (collect ob w) = Inr w2
     else w2 = collect ob w"
    "save_network cfg i w2 = Inr w3" "write_log i w3 = Inr w'"
  using assms
  by (auto simp: train_iter_def Let_def split: sum.splits if_splits)

lemma train_iter_buffer:
  assumes "train_iter cfg i ob w = Inr w'"
  shows "if flush_due cfg ob (collect ob w)
         then aliased w' \<and> buffer_length w' = 0 \<and> (\<forall>k. contents w' k = [])
         else buffer w' = buffer w \<and> heap w' = heap (collect ob w) \<and>
              buffer_length w' = buffer_length w + 1"
proof -
  from assms obtain w2 w3 where
    f: "if flush_due cfg ob (collect ob w) then flush cfg i ob (collect ob w) = Inr w2
        else w2 = collect ob w"
    and s: "save_network cfg i w2 = Inr w3" and l: "write_log i w3 = Inr w'"
    by (rule train_iter_cases)
  have same: "buffer w' = buffer w2" "heap w' = heap w2" "buffer_length w' = buffer_length w2"
    using save_network_fields(1-3)[OF s] write_log_fields(1-3)[OF l] by simp_all
  show ?thesis
  proof (cases "flush_due cfg ob (collect ob w)")
    case True
    with f have "flush cfg i ob (collect ob w) = Inr w2" by simp
    from flush_fields(1-3)[OF this] same True show ?thesis
      by (simp add: aliased_def contents_def)
  next
    case False
    with f same show ?thesis
      by (simp add: collect_fields)
  qed
qed

lemma flush_due_iff:
  assumes "0 < BUFFER_UPDATE_FREQ cfg" "0 \<le> buffer_length w"
    "buffer_length w < BUFFER_UPDATE_FREQ cfg"
  shows "flush_due cfg ob (collect ob w) \<longleftrightarrow>
           buffer_length w + 1 = BUFFER_UPDATE_FREQ cfg \<or> o_done ob"
proof -
  let ?F = "BUFFER_UPDATE_FREQ cfg"
  have "(buffer_length w + 1) mod ?F = 0 \<longleftrightarrow> buffer_length w + 1 = ?F"
  proof (cases "buffer_length w + 1 = ?F")
    case True
    then show ?thesis by simp
  next
    case False
    with assms have "0 < buffer_length w + 1" "buffer_length w + 1 < ?F" by simp_all
    then have "(buffer_length w + 1) mod ?F = buffer_length w + 1" by simp
    with False \<open>0 < buffer_length w + 1\<close> show ?thesis by simp
  qed
  then show ?thesis
    by (simp add: flush_due_def collect_fields)
qed

lemma train_iter_inv:
  assumes "0 < BUFFER_UPDATE_FREQ cfg" "0 \<le> buffer_length w"
    "buffer_length w < BUFFER_UPDATE_FREQ cfg" "train_iter cfg i ob w = Inr w'"
  shows "0 \<le> buffer_length w' \<and> buffer_length w' < BUFFER_UPDATE_FREQ cfg"
proof (cases "flush_due cfg ob (collect ob w)")
  case True
  with train_iter_buffer[OF assms(4)] assms(1) show ?thesis by simp
next
  case False
  with flush_due_iff[OF assms(1-3), of ob] have "buffer_length w + 1 \<noteq> BUFFER_UPDATE_FREQ cfg"
    by simp
  with train_iter_buffer[OF assms(4)] False assms(2,3) show ?thesis by simp
qed

lemma train_loop_inv:
  assumes "0 < BUFFER_UPDATE_FREQ cfg"
  shows "0 \<le> buffer_length w \<Longrightarrow> buffer_length w < BUFFER_UPDATE_FREQ cfg \<Longrightarrow>
         train_loop cfg env is w = Inr w' \<Longrightarrow>
         0 \<le> buffer_length w' \<and> buffer_length w' < BUFFER_UPDATE_FREQ cfg"
proof (induction "is" arbitrary: w)
  case Nil
  then show ?case by simp
next
  case (Cons i "is")
  from Cons.prems(3) obtain w1 where 1: "train_iter cfg i (env i) w = Inr w1"
    and 2: "train_loop cfg env is w1 = Inr w'"
    by (auto split: sum.splits)
  from train_iter_inv[OF assms Cons.prems(1,2) 1] Cons.IH[OF _ _ 2] show ?case
    by simp
qed

lemma train_iter_aliased:
  assumes "aliased w" "train_iter cfg i ob w = Inr w'"
  shows "aliased w'"
  using train_iter_buffer[OF assms(2)] assms(1)
  by (simp add: aliased_def split: if_splits)

lemma train_loop_aliased:
  "aliased w \<Longrightarrow> train_loop cfg env is w = Inr w' \<Longrightarrow> aliased w'"
proof (induction "is" arbitrary: w)
  case Nil
  then show ?case by simp
next
  case (Cons i "is")
  from Cons.prems(2) obtain w1 where 1: "train_iter cfg i (env i) w = Inr w1"
    and 2: "train_loop cfg env is w1 = Inr w'"
    by (auto split: sum.splits)
  from train_iter_aliased[OF Cons.prems(1) 1] Cons.IH[OF _ 2] show ?case
    by simp
qed

lemma buffer_sizes_ok_cong:
  assumes "buffer w' = buffer w" "heap w' = heap w" "buffer_length w' = buffer_length w"
  shows "buffer_sizes_ok w' = buffer_sizes_ok w"
  using assms by (simp add: buffer_sizes_ok_def aliased_def contents_def)

lemma init_sizes:
  assumes "ActorCriticWorker_init cfg n opt = Inr w0"
  shows "buffer_sizes_ok (w0\<lparr>eplen := 0, loss := None\<rparr>)"
  using init_fields[OF assms]
  by (simp add: buffer_sizes_ok_def aliased_def contents_def)

lemma collect_sizes:
  assumes "buffer_sizes_ok w"
  shows "buffer_sizes_ok (collect ob w)"
proof (cases "aliased w")
  case True
  with assms have "0 \<le> buffer_length w" "length (contents w K_value) = 4 * nat (buffer_length w)"
    by (simp_all add: buffer_sizes_ok_def)
  moreover from True have "aliased (collect ob w)"
    by (simp add: aliased_def collect_fields)
  ultimately show ?thesis
    using collect_aliased[OF True, of ob K_value]
    by (simp add: buffer_sizes_ok_def collect_fields nat_add_distrib)
next
  case False
  with assms have n: "0 \<le> buffer_length w"
    and d: "distinct (map (buffer w) [K_value, K_action_prob, K_reward, K_entropy])"
    and l: "list_all (\<lambda>k. length (contents w k) = nat (buffer_length w))
              [K_value, K_action_prob, K_reward, K_entropy]"
    by (simp_all add: buffer_sizes_ok_def)
  from False have a: "\<not> aliased (collect ob w)"
    by (simp add: aliased_def collect_fields)
  from d l n have "list_all (\<lambda>k. length (contents (collect ob w) k) = nat (buffer_length w + 1))
              [K_value, K_action_prob, K_reward, K_entropy]"
    by (simp add: collect_def Let_def contents_def buffer_append_def nat_add_distrib) 
  with a d n show ?thesis
    by (simp add: buffer_sizes_ok_def collect_fields)
qed

lemma train_iter_sizes:
  assumes "buffer_sizes_ok w" "train_iter cfg i ob w = Inr w'"
  shows "buffer_sizes_ok w'"
proof (cases "flush_due cfg ob (collect ob w)")
  case True
  with train_iter_buffer[OF assms(2)] show ?thesis
    by (simp add: buffer_sizes_ok_def)
next
  case False
  with train_iter_buffer[OF assms(2)] have "buffer w' = buffer (collect ob w)"
    "heap w' = heap (collect ob w)" "buffer_length w' = buffer_length (collect ob w)"
    by (simp_all add: collect_fields)
  from buffer_sizes_ok_cong[OF this] collect_sizes[OF assms(1)] show ?thesis
    by simp
qed

lemma train_loop_sizes:
  "buffer_sizes_ok w \<Longrightarrow> train_loop cfg env is w = Inr w' \<Longrightarrow> buffer_sizes_ok w'"
proof (induction "is" arbitrary: w)
  case Nil
  then show ?case by simp
next
  case (Cons i "is")
  from Cons.prems(2) obtain w1 where 1: "train_iter cfg i (env i) w = Inr w1"
    and 2: "train_loop cfg env is w1 = Inr w'"
    by (auto split: sum.splits)
  from train_iter_sizes[OF Cons.prems(1) 1] Cons.IH[OF _ 2] show ?case
    by simp
qed

lemma buffer_sizes_ge:
  assumes "buffer_sizes_ok w"
  shows "nat (buffer_length w) \<le> length (contents w k)"
proof (cases "aliased w")
  case True
  then have "contents w k = contents w K_value"
    by (cases k) (simp_all add: aliased_def contents_def)
  with assms True show ?thesis
    by (simp add: buffer_sizes_ok_def)
next
  case False
  with assms show ?thesis
    by (cases k) (simp_all add: buffer_sizes_ok_def)
qed

text \<open>The scenarios run: the definitions that evaluate a concrete run.\<close>

lemma upt_0_2: "[0..<2] = [0, 1]"
  by (simp add: eval_nat_numeral)

lemmas run_defs = example_run_def ActorCriticWorker_init_def linspace_def example_config_def
  train_iter_def getitem_def collect_def buffer_append_def flush_due_def flush_def
  optimize_model_def compute_losses_def bootstrap_value_def loss_body_def contents_def detach_def
  example_env_def terminal_step_def two_param_opt_def unit_param_def SharedAdam_init_def
  init_state_def zero_grad_def adam_update_def float32_succ_def step_size_def clear_buffers_def end_episode_def
  save_network_def write_log_def Let_def zero_fnum_def sqrt_plus_eps_nonzero
  checkpoint_path_def state_dict_def upt_0_2

lemma example_run_returns: "\<not> isl (example_run [2])"
  by (simp add: run_defs)

text \<open>
  Threshold 5, termination in iteration 2: the buffer grows to four steps, is flushed
  by the fifth, and is flushed again by the step on which the game ends.
\<close>

lemma upt_0_5: "[0..<5] = [0, 1, 2, 3, 4]"
  by (simp add: eval_nat_numeral)

lemma example_run_lengths:
  "map (\<lambda>is. map_sum id buffer_length (example_run is))
     [[3], [3, 4], [3, 4, 5], [3, 4, 5, 6], [3, 4, 5, 6, 7], [3, 4, 5, 6, 7, 2]]
   = [Inr 1, Inr 2, Inr 3, Inr 4, Inr 0, Inr 0]"
  by (simp add: run_defs upt_0_5)

lemma example_run_Inr:
  assumes "\<not> isl (example_run is)"
    and "ActorCriticWorker_init example_config 0 two_param_opt = Inr w0"
  obtains w where "train_loop example_config example_env is (w0\<lparr>eplen := 0, loss := None\<rparr>) = Inr w"
    and "example_run is = Inr w"
  using assms
  by (cases "train_loop example_config example_env is (w0\<lparr>eplen := 0, loss := None\<rparr>)")
     (simp_all add: example_run_def)

text \<open>
  Claim C5: a worker starts every collection step with fewer buffered steps than the
  flush threshold.  In every state \<open>w\<close> that the training loop of a constructed
  worker reaches, the buffer length is below the (positive) threshold; the step that
  starts there optimizes exactly when it brings the length to the threshold or the
  game reports termination; and after an optimization the length is zero and every key
  is bound to an empty list, while otherwise the length has grown by one.
\<close>

theorem buffer_length_below_threshold:
  assumes "0 < BUFFER_UPDATE_FREQ cfg"
    and "ActorCriticWorker_init cfg n opt = Inr w0"
    and "train_loop cfg env is (w0\<lparr>eplen := 0, loss := None\<rparr>) = Inr w"
  shows "0 \<le> buffer_length w \<and> buffer_length w < BUFFER_UPDATE_FREQ cfg \<and>
         (\<forall>ob. flush_due cfg ob (collect ob w) =
                 (buffer_length w + 1 = BUFFER_UPDATE_FREQ cfg \<or> o_done ob)) \<and>
         (\<forall>i ob w'. train_iter cfg i ob w = Inr w' \<longrightarrow>
            (if flush_due cfg ob (collect ob w)
             then buffer_length w' = 0 \<and> (\<forall>k. contents w' k = [])
             else buffer_length w' = buffer_length w + 1))"
proof -
  have "buffer_length (w0\<lparr>eplen := 0, loss := None\<rparr>) = 0"
    using init_fields(1)[OF assms(2)] by simp
  with train_loop_inv[OF assms(1) _ _ assms(3)] assms(1)
  have inv: "0 \<le> buffer_length w" "buffer_length w < BUFFER_UPDATE_FREQ cfg"
    by simp_all
  have "\<And>i ob w'. train_iter cfg i ob w = Inr w' \<Longrightarrow>
            (if flush_due cfg ob (collect ob w)
             then buffer_length w' = 0 \<and> (\<forall>k. contents w' k = [])
             else buffer_length w' = buffer_length w + 1)"
    using train_iter_buffer by (simp split: if_splits)
  with inv flush_due_iff[OF assms(1) inv] show ?thesis
    by blast
qed

theorem buffer_length_below_threshold_witness:
  "\<exists>w. example_run [3, 4, 5, 6] = Inr w \<and> buffer_length w = 4 \<and>
       buffer_length w < BUFFER_UPDATE_FREQ example_config \<and>
       \<not> o_done (example_env 7) \<and>
       flush_due example_config (example_env 7) (collect (example_env 7) w)"
proof -
  obtain w0 where w0: "ActorCriticWorker_init example_config 0 two_param_opt = Inr w0"
    using first_worker by blast
  from example_run_lengths have "map_sum id buffer_length (example_run [3, 4, 5, 6]) = Inr 4"
    by simp
  then obtain w where r: "example_run [3, 4, 5, 6] = Inr w" and b: "buffer_length w = 4"
    by (cases "example_run [3, 4, 5, 6]") auto
  from r have t: "train_loop example_config example_env [3, 4, 5, 6]
                    (w0\<lparr>eplen := 0, loss := None\<rparr>) = Inr w"
    by (simp add: example_run_def w0)
  have f: "0 < BUFFER_UPDATE_FREQ example_config"
    by (simp add: example_config_def)
  from buffer_length_below_threshold[OF f w0 t]
  have "buffer_length w < BUFFER_UPDATE_FREQ example_config"
    and "flush_due example_config (example_env 7) (collect (example_env 7) w) =
           (buffer_length w + 1 = BUFFER_UPDATE_FREQ example_config \<or> o_done (example_env 7))"
    by blast+
  with r b show ?thesis
    by (simp add: example_config_def example_env_def terminal_step_def)
qed

text \<open>
  Claim C3: the reset \<open>dict.fromkeys(self.buffer, [])\<close> of an optimization binds the
  four keys to one list object, and nothing afterwards separates them.  After an
  iteration that optimizes, and after any further iterations, the four keys hold one
  reference; a collection step then leaves them so and appends its value, log
  probability, reward and entropy, in this order, to the one list every key reads;
  \<open>optimize_model\<close> and the next reset leave the keys bound to one list as well.
\<close>

theorem buffer_keys_share_one_list:
  assumes "train_iter cfg i ob w = Inr w1"
    and "flush_due cfg ob (collect ob w)"
    and "train_loop cfg env is w1 = Inr w2"
  shows "aliased w1 \<and> aliased w2 \<and>
         (\<forall>ob'. aliased (collect ob' w2) \<and>
            (\<forall>k. contents (collect ob' w2) k =
                   contents w2 K_value @ [o_value ob', o_log_prob ob', o_reward ob', o_entropy ob'])) \<and>
         (\<forall>ob' l w3. optimize_model cfg ob' w2 = Inr (l, w3) \<longrightarrow> aliased w3) \<and>
         aliased (clear_buffers w2)"
proof -
  from train_iter_buffer[OF assms(1)] assms(2) have a1: "aliased w1" by simp
  from train_loop_aliased[OF a1 assms(3)] have a2: "aliased w2" .
  have c: "\<And>ob'. aliased (collect ob' w2)"
    using a2 by (simp add: aliased_def collect_fields)
  have o: "\<And>ob' l w3. optimize_model cfg ob' w2 = Inr (l, w3) \<Longrightarrow> aliased w3"
    using a2 optimize_model_fields(1) by (simp add: aliased_def)
  from a1 a2 c o collect_aliased[OF a2] clear_buffers_fields(1) show ?thesis
    by blast
qed

theorem buffer_keys_share_one_list_witness:
  "\<exists>w. example_run [2] = Inr w \<and> aliased w \<and>
      contents (collect terminal_step w) K_reward = [Fin 0, Fin (- 1), Fin 1, Fin (1 / 2)]"
proof -
  obtain w0 where w0: "ActorCriticWorker_init example_config 0 two_param_opt = Inr w0"
    using first_worker by blast
  let ?w0 = "w0\<lparr>eplen := 0, loss := None\<rparr>"
  obtain w where t: "train_loop example_config example_env [2] ?w0 = Inr w"
    and r: "example_run [2] = Inr w"
    using example_run_Inr[OF example_run_returns w0] by blast
  from t have i: "train_iter example_config 2 (example_env 2) ?w0 = Inr w"
    by (simp split: sum.splits)
  have d: "flush_due example_config (example_env 2) (collect (example_env 2) ?w0)"
    by (simp add: flush_due_def example_env_def terminal_step_def)
  have l: "train_loop example_config example_env [] w = Inr w"
    by simp
  from train_iter_buffer[OF i] d have e: "contents w K_value = []"
    by simp
  from buffer_keys_share_one_list[OF i d l]
  have "aliased w"
    and "contents (collect terminal_step w) K_reward =
           contents w K_value @ [o_value terminal_step, o_log_prob terminal_step,
                                 o_reward terminal_step, o_entropy terminal_step]"
    by blast+
  with r e show ?thesis
    by (simp add: terminal_step_def)
qed

text \<open>
  In every optimize step of a run, with \<open>n\<close> buffered steps, the loop never reads
  outside a list, and the policy loss and \<open>gae\<close> it returns are the accumulations
  over entry \<open>n - 1\<close> down to entry \<open>0\<close> of the lists the keys are bound to: four
  lists of one kind each before the first reset, and the one list of all appends
  afterwards.
\<close>

lemma optimize_step_reads_lists:
  assumes "ActorCriticWorker_init cfg n0 opt = Inr w0"
    and "train_loop cfg env is (w0\<lparr>eplen := 0, loss := None\<rparr>) = Inr w"
  shows "let w1 = collect ob w;
             n = nat (buffer_length w1);
             value_1 = (if o_done ob then 0 else o_next_value ob);
             w' = buffer_append K_value value_1 w1;
             buf = contents w'
         in map_sum id (\<lambda>r. (fst r, snd (snd r))) (compute_losses cfg ob w1) =
              Inr (w', policy_loss_spec cfg buf n n, gae_spec cfg buf n n) \<and>
            (if aliased w then True else buf K_value ! n = value_1)"
proof -
  let ?w1 = "collect ob w"
  have ok: "buffer_sizes_ok ?w1"
    using train_loop_sizes[OF init_sizes[OF assms(1)] assms(2)] by (rule collect_sizes)
  have a: "aliased ?w1 = aliased w"
    by (simp add: aliased_def collect_fields)
  from ok a have "\<not> aliased w \<Longrightarrow> length (contents ?w1 K_value) = nat (buffer_length ?w1)"
    by (simp add: buffer_sizes_ok_def)
  with loss_recurrences[OF buffer_sizes_ge[OF ok] buffer_sizes_ge[OF ok]
      buffer_sizes_ge[OF ok] buffer_sizes_ge[OF ok], where cfg=cfg and ob=ob]
  show ?thesis
    by (simp add: Let_def)
qed

lemmas loss_defs = losses_fresh_def losses_after_flush_def two_steps_def experience_spec_def
  delta_spec_def

text \<open>
  Claim C4 describes the policy loss by the recurrences
  \<open>delta_i = reward_i + discount * value_{i+1} - value_i\<close>,
  \<open>gae = gae * discount + delta_i\<close> and
  \<open>policy_loss -= log_prob_i * gae - entropy_coeff * entropy_i\<close> over the buffered
  experiences.  The reset \<open>dict.fromkeys(self.buffer, [])\<close> under the comment
  \<open># Clear buffers\<close> binds the four keys to one list, so from the second optimization
  on \<open>self.buffer['reward'][i]\<close>, \<open>self.buffer['value'][i]\<close>,
  \<open>self.buffer['action_prob'][i]\<close> and \<open>self.buffer['entropy'][i]\<close> all read entry
  \<open>i\<close> of the list of all appends.  For a worker that has optimized once and then
  buffers one step (value 0, log probability -1, reward 1, entropy 1/2) on which the
  episode ends, the code returns the value loss 0, the policy loss 0 and the \<open>gae\<close>
  -99/100; the recurrences give the \<open>gae\<close> 1 and the policy loss 201/200, which is
  also what the code returns for the same step in the first optimization of a worker.
\<close>

theorem policy_loss_reads_shared_list:
  "losses_after_flush [terminal_step] = Inr (Fin 0, Fin 0, Fin (- (99 / 100))) \<and>
   (gae_spec example_config (experience_spec [terminal_step]) 1 1,
    policy_loss_spec example_config (experience_spec [terminal_step]) 1 1)
     = (Fin 1, Fin (201 / 200)) \<and>
   losses_fresh [terminal_step] = Inr (Fin 0, Fin (201 / 200), Fin 1)"
proof (intro conjI)
  show "losses_after_flush [terminal_step] = Inr (Fin 0, Fin 0, Fin (- (99 / 100)))"
    by (simp add: loss_defs run_defs)
  show "(gae_spec example_config (experience_spec [terminal_step]) 1 1,
    policy_loss_spec example_config (experience_spec [terminal_step]) 1 1)
     = (Fin 1, Fin (201 / 200))"
    by (simp add: loss_defs terminal_step_def example_config_def zero_fnum_def)
  show "losses_fresh [terminal_step] = Inr (Fin 0, Fin (201 / 200), Fin 1)"
    by (simp add: loss_defs run_defs)
qed

text \<open>
  Claim C9: the losses are a function of the sequence of rewards, values, entropies
  and log probabilities of the buffer and of the three coefficients.  The reset
  \<open>dict.fromkeys(self.buffer, [])\<close> binds the four keys to one list, so the losses
  the code computes depend, beyond that sequence, on whether the worker has optimized
  before.  For the two buffered steps of the scenario
  and one configuration, a worker that has just been constructed computes the value
  loss 0 and the policy loss 3, and a worker that has optimized once computes the value
  loss 1 and the policy loss 49/50.
\<close>

theorem losses_depend_on_earlier_reset:
  "losses_fresh two_steps = Inr (Fin 0, Fin 3, Fin (199 / 100)) \<and>
   losses_after_flush two_steps = Inr (Fin 1, Fin (49 / 50), Fin (- (99 / 10000)))"
proof (intro conjI)
  show "losses_fresh two_steps = Inr (Fin 0, Fin 3, Fin (199 / 100))"
    by (simp add: loss_defs run_defs)
  show "losses_after_flush two_steps = Inr (Fin 1, Fin (49 / 50), Fin (- (99 / 10000)))"
    by (simp add: loss_defs run_defs)
qed

section \<open>The shared optimizer in the optimize step\<close>

lemma SharedAdam_step_updates:
  assumes "SharedAdam_step gs = Inr gs'" and "j < length gs" and "k < length (params (gs ! j))"
    and "grad (params (gs ! j) ! k) = Some g0"
  shows "adam_update (gs ! j) (params (gs ! j) ! k) g0 = Inr (params (gs' ! j) ! k)"
    and "state_step (params (gs' ! j) ! k) = float32_succ (state_step (params (gs ! j) ! k))"
proof -
  from SharedAdam_step_nth[OF assms(1,2)] assms(3,4)
  show u: "adam_update (gs ! j) (params (gs ! j) ! k) g0 = Inr (params (gs' ! j) ! k)"
    by (simp add: step_params_nth_Some)
  from adam_update_fields[OF u]
  show "state_step (params (gs' ! j) ! k) = float32_succ (state_step (params (gs ! j) ! k))"
    by blast
qed

lemma nan_cycle_value:
  "map_sum id (\<lambda>r. (isfinite (fst r), step_counts (shared_opt (snd r)),
                     state_dict (shared_opt (snd r)))) nan_cycle
     = Inr (False, [[1, 1]], [[NaN], [NaN]])"
  by (simp add: nan_cycle_def nan_step_def run_defs step_counts_def)

text \<open>
  Claim C7, as stated: an optimize cycle whose loss is not finite leaves the shared
  optimizer untouched.  \<open>optimize_model\<close> has no test of the loss.  In the scenario
  the network returns \<open>NaN\<close> for the buffered step, so the loss is \<open>NaN\<close>; the
  cycle still steps the shared optimizer: the step counters of both shared tensors go
  from 0 to 1 and both tensors become \<open>NaN\<close>.
\<close>

theorem non_finite_loss_is_applied:
  "map_sum id (\<lambda>r. (isfinite (fst r), step_counts (shared_opt (snd r)),
                     state_dict (shared_opt (snd r)))) nan_cycle
     = Inr (False, [[1, 1]], [[NaN], [NaN]]) \<and>
   step_counts two_param_opt = [[0, 0]] \<and> state_dict two_param_opt = [[Fin 1], [Fin 1]]"
proof (intro conjI)
  show "map_sum id (\<lambda>r. (isfinite (fst r), step_counts (shared_opt (snd r)),
                     state_dict (shared_opt (snd r)))) nan_cycle
     = Inr (False, [[1, 1]], [[NaN], [NaN]])"
    by (rule nan_cycle_value)
  show "step_counts two_param_opt = [[0, 0]]"
    by (simp add: two_param_opt_def unit_param_def SharedAdam_init_def init_state_def
          step_counts_def)
  show "state_dict two_param_opt = [[Fin 1], [Fin 1]]"
    by (simp add: two_param_opt_def unit_param_def SharedAdam_init_def init_state_def
          state_dict_def)
qed

text \<open>
  Claim C7, amended: the optimize step applies the pushed gradients whatever the loss
  is.  Whenever \<open>optimize_model\<close> returns, with a finite loss or not, the shared
  optimizer it leaves is the result of \<open>step\<close> on the optimizer with the local
  gradients pushed: every shared tensor whose pushed gradient is not missing holds the
  values, the moment estimates and the step counter that the update of \<open>step\<close>
  gives it from that gradient, the counter being the old one plus 1 in \<open>float32\<close>
  arithmetic (one more below \<open>16777216\<close>, unchanged at \<open>16777216\<close>).
\<close>

theorem optimize_model_applies_unconditionally:
  assumes "optimize_model cfg ob w = Inr (l, w')"
  shows "let gs = push_grads (o_grads ob) (zero_grad (shared_opt w))
         in SharedAdam_step gs = Inr (shared_opt w') \<and>
            (\<forall>j k g0. j < length gs \<and> k < length (params (gs ! j)) \<and>
                   grad (params (gs ! j) ! k) = Some g0 \<longrightarrow>
               adam_update (gs ! j) (params (gs ! j) ! k) g0 = Inr (params (shared_opt w' ! j) ! k) \<and>
               state_step (params (shared_opt w' ! j) ! k) =
                 float32_succ (state_step (params (gs ! j) ! k)))"
  using optimize_model_fields(5)[OF assms] SharedAdam_step_updates
  by (simp add: Let_def)

theorem optimize_model_applies_unconditionally_witness:
  "\<exists>l w'. nan_cycle = Inr (l, w') \<and> \<not> isfinite l \<and>
      state_step (params (shared_opt w' ! 0) ! 0) = 1"
proof -
  obtain w0 where w0: "ActorCriticWorker_init example_config 0 two_param_opt = Inr w0"
    using first_worker by blast
  let ?w = "collect nan_step w0"
  have "\<exists>l w'. nan_cycle = Inr (l, w') \<and> \<not> isfinite l"
  proof (cases nan_cycle)
    case (Inl e)
    show ?thesis using nan_cycle_value unfolding Inl by simp
  next
    case (Inr r)
    show ?thesis using nan_cycle_value unfolding Inr by (cases r) simp
  qed
  then obtain l w' where r: "nan_cycle = Inr (l, w')" and f: "\<not> isfinite l"
    by blast
  then have o: "optimize_model example_config nan_step ?w = Inr (l, w')"
    by (simp add: nan_cycle_def w0)
  let ?gs = "push_grads (o_grads nan_step) (zero_grad (shared_opt ?w))"
  have gs: "?gs = push_grads [Some [NaN], Some [NaN]] (zero_grad two_param_opt)"
    by (simp add: collect_fields init_fields(2)[OF w0] nan_step_def)
  have "0 < length ?gs" "0 < length (params (?gs ! 0))"
    "grad (params (?gs ! 0) ! 0) = Some [NaN]" "state_step (params (?gs ! 0) ! 0) = 0"
    unfolding gs
    by (simp_all add: two_param_opt_def unit_param_def SharedAdam_init_def init_state_def
          zero_grad_def)
  with optimize_model_applies_unconditionally[OF o]
  have "state_step (params (shared_opt w' ! 0) ! 0) = 1"
    by (simp add: Let_def float32_succ_def)
  with r f show ?thesis
    by blast
qed

section \<open>Checkpoints\<close>

lemma digit_val_digit_char: "d < 10 \<Longrightarrow> digit_val (digit_char d) = d"
proof -
  assume "d < 10"
  then have "d \<in> {0, 1, 2, 3, 4, 5, 6, 7, 8, 9}"
    by auto
  then show ?thesis
    by (auto simp: digit_val_def digit_char_def)
qed

lemma decimal_snoc: "decimal (s @ [c]) = 10 * decimal s + digit_val c"
  by (simp add: decimal_def)

lemma decimal_str_nat: "decimal (str_nat n) = n"
proof (induction n rule: str_nat.induct)
  case (1 n)
  show ?case
  proof (cases "n < 10")
    case True
    then show ?thesis
      by (simp add: str_nat.simps[of n] decimal_def digit_val_digit_char)
  next
    case False
    with 1 have "decimal (str_nat (n div 10)) = n div 10"
      by simp
    with False show ?thesis
      by (simp add: str_nat.simps[of n] decimal_snoc digit_val_digit_char)
  qed
qed

lemma foldl_zeros:
  "foldl (\<lambda>a c. 10 * a + digit_val c) 0 (replicate k CHR ''0'') = 0"
  by (induction k) (simp_all add: digit_val_def)

lemma decimal_zfill: "decimal (zfill width s) = decimal s"
  by (simp add: zfill_def decimal_def foldl_zeros)

lemma length_zfill: "width \<le> length (zfill width s)"
  by (simp add: zfill_def)

lemma checkpoint_path_inj:
  assumes "checkpoint_path cfg j = checkpoint_path cfg i"
  shows "j = i"
proof -
  from assms have "zfill 7 (str_nat j) = zfill 7 (str_nat i)"
    by (simp add: checkpoint_path_def)
  then have "decimal (zfill 7 (str_nat j)) = decimal (zfill 7 (str_nat i))"
    by simp
  then show ?thesis
    by (simp add: decimal_zfill decimal_str_nat)
qed

lemma train_iter_files:
  assumes "train_iter cfg i ob w = Inr w'"
  shows "files w' = (if int i mod SAVE_NETWORK_FREQ cfg = 0
                     then (files w)(checkpoint_path cfg i \<mapsto> state_dict (shared_opt w'))
                     else files w)"
proof -
  from assms obtain w2 w3 where
    f: "if flush_due cfg ob (collect ob w) then flush cfg i ob (collect ob w) = Inr w2
        else w2 = collect ob w"
    and s: "save_network cfg i w2 = Inr w3" and l: "write_log i w3 = Inr w'"
    by (rule train_iter_cases)
  have "files w2 = files w"
  proof (cases "flush_due cfg ob (collect ob w)")
    case True
    with f have "flush cfg i ob (collect ob w) = Inr w2" by simp
    from flush_fields(4)[OF this] show ?thesis
      by (simp add: collect_fields)
  next
    case False
    with f show ?thesis
      by (simp add: collect_fields)
  qed
  with save_network_fields(4,5)[OF s] write_log_fields(4,5)[OF l] show ?thesis
    by simp
qed

lemma example_run_3: "\<not> isl (example_run [3])"
  by (simp add: run_defs)

lemma example_run_3_state:
  "map_sum id (\<lambda>w. state_dict (shared_opt w)) (example_run [3]) = Inr [[Fin 1], [Fin 1]]"
  by (simp add: run_defs)

lemma checkpoint_path_3: "checkpoint_path example_config 3 = ''exp/0000003.pt''"
  by (simp add: checkpoint_path_def example_config_def zfill_def str_nat.simps digit_char_def
        eval_nat_numeral)

lemma zfill_3: "zfill 7 (str_nat 3) = ''0000003''"
proof -
  have "str_nat 3 = ''3''"
    by (subst str_nat.simps) (simp add: digit_char_def eval_nat_numeral)
  then show ?thesis
    by (simp add: zfill_def eval_nat_numeral)
qed

lemma zfill_6: "zfill 7 (str_nat 6) = ''0000006''"
proof -
  have "str_nat 6 = ''6''"
    by (subst str_nat.simps) (simp add: digit_char_def eval_nat_numeral)
  then show ?thesis
    by (simp add: zfill_def eval_nat_numeral)
qed

lemma checkpoint_path_6: "checkpoint_path example_config 6 = ''exp/0000006.pt''"
  by (simp add: checkpoint_path_def example_config_def zfill_6)

lemmas share_defs = second_worker_run_def share_def step_counts_def zfill_3 zfill_6

text \<open>
  Claim C8, as stated: the path of a checkpoint is keyed by the current global
  iteration index, and a write is triggered at every interval of global iterations.
  The code has no global iteration index: \<open>i\<close> is the variable of the loop of the
  worker that writes, and every worker counts from 1.  With the interval 3, worker 0
  writes \<open>exp/0000003.pt\<close> in its third iteration, the third iteration of the run,
  after one step of the shared optimizer.  Worker 1 then runs three iterations: in its
  third, the sixth of the run, it writes the parameters after two steps of the shared
  optimizer to the same path \<open>exp/0000003.pt\<close>, over the file of worker 0, and there
  is no \<open>exp/0000006.pt\<close>.
\<close>

theorem checkpoint_index_is_per_worker:
  "map_sum id (\<lambda>w. (dom (files w), files w ''exp/0000003.pt'' = Some (state_dict (shared_opt w)),
                    step_counts (shared_opt w))) (example_run [1, 2, 3])
     = Inr ({''exp/0000003.pt''}, True, [[1, 1]]) \<and>
   map_sum id (\<lambda>w. (dom (files w), files w ''exp/0000003.pt'' = Some (state_dict (shared_opt w)),
                    step_counts (shared_opt w), files w (checkpoint_path example_config 6)))
     second_worker_run
     = Inr ({''exp/0000003.pt''}, True, [[2, 2]], None)"
proof (intro conjI)
  show "map_sum id (\<lambda>w. (dom (files w), files w ''exp/0000003.pt'' = Some (state_dict (shared_opt w)),
                    step_counts (shared_opt w))) (example_run [1, 2, 3])
     = Inr ({''exp/0000003.pt''}, True, [[1, 1]])"
    by (simp add: run_defs share_defs)
  show "map_sum id (\<lambda>w. (dom (files w), files w ''exp/0000003.pt'' = Some (state_dict (shared_opt w)),
                    step_counts (shared_opt w), files w (checkpoint_path example_config 6)))
     second_worker_run
     = Inr ({''exp/0000003.pt''}, True, [[2, 2]], None)"
    by (simp add: run_defs share_defs)
qed

text \<open>
  Claim C8, amended: the path of a checkpoint is keyed by the experiment name and the
  index \<open>i\<close> of the iteration in the training loop of the worker that writes.  An
  iteration \<open>i\<close> of a worker, whatever state the shared objects are in, writes a
  checkpoint exactly when this \<open>i\<close> is a multiple of \<open>SAVE_NETWORK_FREQ\<close>, and
  nothing else in the iteration changes the files.  The file holds the parameters of
  the global network as they are at the end of the iteration; its path is the
  experiment name, a slash, \<open>i\<close> as decimal digits padded with zeros to at least
  seven, and \<open>.pt\<close>, so that one worker writes distinct paths in distinct iterations.
\<close>

theorem checkpoint_write:
  assumes "train_iter cfg i ob w = Inr w'"
  shows "files w' = (if int i mod SAVE_NETWORK_FREQ cfg = 0
                     then (files w)(checkpoint_path cfg i \<mapsto> state_dict (shared_opt w'))
                     else files w) \<and>
         checkpoint_path cfg i = EXPERIMENT_NAME cfg @ ''/'' @ zfill 7 (str_nat i) @ ''.pt'' \<and>
         7 \<le> length (zfill 7 (str_nat i)) \<and> decimal (zfill 7 (str_nat i)) = i \<and>
         (\<forall>j. checkpoint_path cfg j = checkpoint_path cfg i \<longrightarrow> j = i)"
  using train_iter_files[OF assms] checkpoint_path_inj
  by (simp add: checkpoint_path_def length_zfill decimal_zfill decimal_str_nat)

theorem checkpoint_write_witness:
  "\<exists>w. example_run [3] = Inr w \<and>
       files w ''exp/0000003.pt'' = Some (state_dict (shared_opt w)) \<and>
       state_dict (shared_opt w) = [[Fin 1], [Fin 1]]"
proof -
  obtain w0 where w0: "ActorCriticWorker_init example_config 0 two_param_opt = Inr w0"
    using first_worker by blast
  let ?w0 = "w0\<lparr>eplen := 0, loss := None\<rparr>"
  obtain w where t: "train_loop example_config example_env [3] ?w0 = Inr w"
    and r: "example_run [3] = Inr w"
    using example_run_Inr[OF example_run_3 w0] by blast
  from t have i: "train_iter example_config 3 (example_env 3) ?w0 = Inr w"
    by (simp split: sum.splits)
  have "int 3 mod SAVE_NETWORK_FREQ example_config = 0"
    by (simp add: example_config_def)
  with checkpoint_write[OF i]
  have "files w ''exp/0000003.pt'' = Some (state_dict (shared_opt w))"
    by (simp add: checkpoint_path_3)
  moreover have "state_dict (shared_opt w) = [[Fin 1], [Fin 1]]"
    using example_run_3_state r by simp
  ultimately show ?thesis
    using r by simp
qed

end
